theory Spec2Isabelle
  imports Complex_Main "HOL-Library.Word" "HOL-Library.Signed_Division" "HOL-Library.Multiset"
begin

section \<open>OpenRTB data (pkg/openrtb)\<close>

text \<open>
  Go's \<open>float64\<close> prices and floors are modelled as \<open>real\<close>: the code only compares
  them (\<open>>=\<close>, \<open>>\<close>). A NaN price fails every comparison, so it never passes the floor
  filter of the auction; the bids the auction orders are ordinary numbers. The one place
  where the code computes with \<open>float64\<close>, the revenue total of the statistics, has
  the rounded addition of \<open>float64\<close> (type \<open>f64\<close> below).
  Go's \<open>int\<close> is \<open>int\<close> here (no arithmetic is done on those fields), \<open>uint64\<close> counters
  and \<open>time.Duration\<close> (an \<open>int64\<close> of nanoseconds) are 64-bit words, whose \<open>+\<close> wraps.
\<close>

type_synonym float64 = real
type_synonym uint64 = "64 word"
type_synonym Duration = "64 word"

record Bid =
  Bid_ID :: string
  ImpID :: string
  Price :: float64
  AdID :: string
  NURL :: string
  AdM :: string
  ADomain :: "string list"
  CID :: string
  CrID :: string
  Cat :: "string list"
  W :: int
  H :: int

record SeatBid =
  SeatBid_Bid :: "Bid list"
  Seat :: string

text \<open>
  \<open>seatbid\<close> is optional on the wire (\<open>omitempty\<close>): an absent array decodes to a nil
  slice, here \<open>None\<close>. \<open>slice_of\<close> is what \<open>len\<close> and \<open>range\<close> see of a possibly nil slice.
\<close>

record BidResponse =
  BidResponse_ID :: string
  SeatBid :: "SeatBid list option"
  BidID :: string
  Cur :: string
  NBR :: int

definition slice_of :: "'a list option \<Rightarrow> 'a list" where
  "slice_of s = (case s of None \<Rightarrow> [] | Some xs \<Rightarrow> xs)"

text \<open>\<open>IsNoBid\<close>: the early return on an empty array, then the loop over the groups.\<close>

fun IsNoBid_loop :: "SeatBid list \<Rightarrow> bool" where
  "IsNoBid_loop [] = True"
| "IsNoBid_loop (sb # sbs) =
     (if length (SeatBid_Bid sb) > 0 then False else IsNoBid_loop sbs)"

definition IsNoBid :: "BidResponse \<Rightarrow> bool" where
  "IsNoBid r =
     (if length (slice_of (SeatBid r)) = 0 then True else IsNoBid_loop (slice_of (SeatBid r)))"

text \<open>
  \<open>AllBids\<close>: the first loop only computes the capacity of the slice; the second appends
  each group's bids.
\<close>

fun AllBids_loop :: "SeatBid list \<Rightarrow> Bid list \<Rightarrow> Bid list" where
  "AllBids_loop [] bids = bids"
| "AllBids_loop (sb # sbs) bids = AllBids_loop sbs (bids @ SeatBid_Bid sb)"

definition BidResponse_AllBids :: "BidResponse \<Rightarrow> Bid list" where
  "BidResponse_AllBids r = AllBids_loop (slice_of (SeatBid r)) []"

record Banner =
  Banner_W :: int
  Banner_H :: int
  Wmax :: int
  Hmax :: int
  Wmin :: int
  Hmin :: int
  Btype :: "int list"
  Battr :: "int list"
  Pos :: int

record Video =
  Mimes :: "string list"
  Minduration :: int
  Maxduration :: int
  Video_W :: int
  Video_H :: int

record Imp =
  Imp_ID :: string
  Imp_Banner :: "Banner option"
  Imp_Video :: "Video option"
  BidFloor :: float64
  Secure :: int
  Tagid :: string

text \<open>
  The app, site, device and user objects of a request are only serialised, never read;
  they are kept as opaque optional values.
\<close>

typedecl App
typedecl Site
typedecl Device
typedecl User

record BidRequest =
  BidRequest_ID :: string
  Imp :: "Imp list"
  BidRequest_App :: "App option"
  BidRequest_Site :: "Site option"
  BidRequest_Device :: "Device option"
  BidRequest_User :: "User option"
  At :: int
  Tmax :: int
  BidRequest_Cur :: "string list"
  Bcat :: "string list"

section \<open>Errors and per-DSP results (internal/httpclient, internal/dispatcher)\<close>

text \<open>
  The \<open>error\<close> values the code produces. A transport error of fasthttp is kept by what the
  code asks of it: whether \<open>errors.Is(err, fasthttp.ErrTimeout)\<close> holds, and its text.
\<close>

record transport_error =
  is_ErrTimeout :: bool
  message :: string

datatype error =
    ErrMarshal string
  | TimeoutError transport_error
  | ErrDoRequest transport_error
  | ErrServerStatus int
  | ErrUnmarshal string
  | Canceled
  | DeadlineExceeded

record Result =
  DSPName :: string
  Response :: "BidResponse option"
  Error :: "error option"
  Latency :: Duration

section \<open>First-price auction (internal/auction)\<close>

record BidWithDSP =
  bwd_Bid :: Bid
  bwd_DSPName :: string

record Outcome =
  RequestID :: string
  Winner :: "Bid option"
  WinningDSP :: string
  ClearingPrice :: float64
  AllBids :: "BidWithDSP list"

text \<open>The three nested loops of \<open>Run\<close> that collect the eligible bids, innermost first.\<close>

fun collect_bids :: "float64 \<Rightarrow> string \<Rightarrow> Bid list \<Rightarrow> BidWithDSP list \<Rightarrow> BidWithDSP list" where
  "collect_bids bidFloor name [] eligibleBids = eligibleBids"
| "collect_bids bidFloor name (bid # bids) eligibleBids =
     (if Price bid \<ge> bidFloor
      then collect_bids bidFloor name bids
             (eligibleBids @ [\<lparr>bwd_Bid = bid, bwd_DSPName = name\<rparr>])
      else collect_bids bidFloor name bids eligibleBids)"

fun collect_seats :: "float64 \<Rightarrow> string \<Rightarrow> SeatBid list \<Rightarrow> BidWithDSP list \<Rightarrow> BidWithDSP list" where
  "collect_seats bidFloor name [] eligibleBids = eligibleBids"
| "collect_seats bidFloor name (sb # sbs) eligibleBids =
     collect_seats bidFloor name sbs (collect_bids bidFloor name (SeatBid_Bid sb) eligibleBids)"

fun collect_results :: "float64 \<Rightarrow> Result list \<Rightarrow> BidWithDSP list \<Rightarrow> BidWithDSP list" where
  "collect_results bidFloor [] eligibleBids = eligibleBids"
| "collect_results bidFloor (r # rs) eligibleBids =
     (if Error r \<noteq> None \<or> Response r = None
      then collect_results bidFloor rs eligibleBids
      else collect_results bidFloor rs
             (collect_seats bidFloor (DSPName r) (slice_of (SeatBid (the (Response r))))
                eligibleBids))"

text \<open>
  The loop that finds the highest bid: \<open>i\<close> runs over the indices of \<open>eligibleBids\<close>,
  \<open>highestIdx\<close> starts at 0 and moves only on a strictly greater price.
\<close>

function highest_loop :: "BidWithDSP list \<Rightarrow> nat \<Rightarrow> nat \<Rightarrow> nat" where
  "highest_loop eligibleBids i highestIdx =
     (if i < length eligibleBids
      then (if Price (bwd_Bid (eligibleBids ! i)) > Price (bwd_Bid (eligibleBids ! highestIdx))
            then highest_loop eligibleBids (Suc i) i
            else highest_loop eligibleBids (Suc i) highestIdx)
      else highestIdx)"
  by pat_completeness auto
termination
  by (relation "measure (\<lambda>(bs, i, h). length bs - i)") auto

declare highest_loop.simps [simp del]

definition Run :: "string \<Rightarrow> float64 \<Rightarrow> Result list \<Rightarrow> Outcome" where
  "Run requestID bidFloor results =
     (let outcome = \<lparr>RequestID = requestID, Winner = None, WinningDSP = [],
                      ClearingPrice = 0, AllBids = []\<rparr>;
          eligibleBids = collect_results bidFloor results [];
          outcome = outcome\<lparr>AllBids := eligibleBids\<rparr>
      in if length eligibleBids = 0 then outcome
         else let highestIdx = highest_loop eligibleBids 0 0;
                  winner = eligibleBids ! highestIdx
              in outcome\<lparr>Winner := Some (bwd_Bid winner),
                          WinningDSP := bwd_DSPName winner,
                          ClearingPrice := Price (bwd_Bid winner)\<rparr>)"

section \<open>HTTP bidder client (internal/httpclient)\<close>

text \<open>
  \<open>Post\<close> talks to three things outside the repository: sonic's \<open>Marshal\<close> and
  \<open>Unmarshal\<close> and fasthttp's \<open>DoTimeout\<close>. They are parameters of the model; each
  returns its error on the left. The request is the value behind the pointer the callers
  pass, which is never nil. \<open>Post\<close> returns \<open>(nil, err)\<close> or \<open>(resp, nil)\<close>: a sum.
\<close>

record http_response =
  StatusCode :: int
  Body :: string

record http_env =
  Marshal :: "BidRequest \<Rightarrow> string + string"
  DoTimeout :: "string \<Rightarrow> string \<Rightarrow> transport_error + http_response"
  Unmarshal :: "string \<Rightarrow> string + BidResponse"

definition StatusNoContent :: int where
  "StatusNoContent = 204"

definition Post :: "http_env \<Rightarrow> string \<Rightarrow> BidRequest \<Rightarrow> error + BidResponse" where
  "Post env url req =
     (case Marshal env req of
        Inl e \<Rightarrow> Inl (ErrMarshal e)
      | Inr body \<Rightarrow>
          (case DoTimeout env url body of
             Inl err \<Rightarrow>
               (if is_ErrTimeout err then Inl (TimeoutError err) else Inl (ErrDoRequest err))
           | Inr response \<Rightarrow>
               (let statusCode = StatusCode response
                in if statusCode = StatusNoContent
                   then Inr \<lparr>BidResponse_ID = BidRequest_ID req, SeatBid = None,
                             BidID = [], Cur = [], NBR = 0\<rparr>
                   else if statusCode \<ge> 400 then Inl (ErrServerStatus statusCode)
                   else (case Unmarshal env (Body response) of
                           Inl e \<Rightarrow> Inl (ErrUnmarshal e)
                         | Inr resp \<Rightarrow> Inr resp))))"

text \<open>
  \<open>IsTimeout\<close> is \<open>errors.As\<close> to \<open>*TimeoutError\<close>: of the errors above only
  \<open>TimeoutError\<close> is one or wraps one.
\<close>

fun IsTimeout :: "error \<Rightarrow> bool" where
  "IsTimeout (TimeoutError e) = True"
| "IsTimeout e = False"

section \<open>Dispatcher (internal/dispatcher)\<close>

record DSPConfig =
  Name :: string
  Endpoint :: string
  Enabled :: bool

record indexedResult =
  idx :: nat
  result :: Result

text \<open>
  What one call of \<open>callDSP\<close> meets: whether the context is already done at the first
  \<open>select\<close> (and its \<open>ctx.Err()\<close>), the network, the measured latency, and whether the
  context is done when \<open>Post\<close> has failed.
\<close>

record call_env =
  ctx_before :: "error option"
  net :: http_env
  elapsed :: Duration
  ctx_after :: "error option"

definition callDSP :: "call_env \<Rightarrow> DSPConfig \<Rightarrow> BidRequest \<Rightarrow> Result" where
  "callDSP env dsp req =
     (let result = \<lparr>DSPName = Name dsp, Response = None, Error = None, Latency = 0\<rparr>
      in case ctx_before env of
           Some e \<Rightarrow> result\<lparr>Error := Some e\<rparr>
         | None \<Rightarrow>
             (let result = result\<lparr>Latency := elapsed env\<rparr>
              in case Post (net env) (Endpoint dsp) req of
                   Inl err \<Rightarrow>
                     (case ctx_after env of
                        Some e \<Rightarrow> result\<lparr>Error := Some e\<rparr>
                      | None \<Rightarrow> result\<lparr>Error := Some err\<rparr>)
                 | Inr resp \<Rightarrow> result\<lparr>Response := Some resp\<rparr>))"

text \<open>
  The collecting loop of \<open>Dispatch\<close> is a \<open>select\<close> over the context's \<open>Done\<close> channel
  and the result channel. What it returns depends on the order in which the two channels
  become ready, so the model takes that order as a list of events: \<open>CtxDone\<close> when the
  loop observes the cancellation, \<open>Recv r\<close> when it receives \<open>r\<close> from the result channel.
  The loop blocks when nothing is ready any more (\<open>Blocked\<close>); a write beyond the result
  array would panic (\<open>IndexOutOfRange\<close>).
\<close>

datatype event = CtxDone | Recv indexedResult

datatype dispatch_fault = Blocked | IndexOutOfRange

definition zero_Result :: Result where
  "zero_Result = \<lparr>DSPName = [], Response = None, Error = None, Latency = 0\<rparr>"

text \<open>
  The loop on cancellation, \<open>for i := range results\<close>: \<open>results\<close> and \<open>d.dsps\<close> have the
  same length, so it walks both together.
\<close>

fun fill_remaining :: "DSPConfig list \<Rightarrow> error \<Rightarrow> Result list \<Rightarrow> Result list" where
  "fill_remaining (dsp # dsps) err (r # results) =
     (if DSPName r = []
      then \<lparr>DSPName = Name dsp, Response = None, Error = Some err, Latency = 0\<rparr>
      else r) # fill_remaining dsps err results"
| "fill_remaining dsps err results = results"

fun collect :: "DSPConfig list \<Rightarrow> error \<Rightarrow> event list \<Rightarrow> nat \<Rightarrow> Result list
                \<Rightarrow> dispatch_fault + Result list" where
  "collect dsps err [] received results =
     (if received < length dsps then Inl Blocked else Inr results)"
| "collect dsps err (ev # evs) received results =
     (if received < length dsps
      then (case ev of
              CtxDone \<Rightarrow> Inr (fill_remaining dsps err results)
            | Recv r \<Rightarrow>
                (if idx r < length results
                 then collect dsps err evs (Suc received) (results[idx r := result r])
                 else Inl IndexOutOfRange))
      else Inr results)"

text \<open>\<open>err\<close> is what \<open>ctx.Err()\<close> returns once the context is done.\<close>

definition Dispatch :: "DSPConfig list \<Rightarrow> error \<Rightarrow> event list \<Rightarrow> dispatch_fault + Result list" where
  "Dispatch dsps err evs =
     (if length dsps = 0 then Inr []
      else collect dsps err evs 0 (replicate (length dsps) zero_Result))"

text \<open>
  What the goroutine launched for DSP \<open>i\<close> sends on the result channel, once, and the
  schedules the goroutines can produce: every received value is the one sent by a
  goroutine \<open>i < length dsps\<close>, and no goroutine sends twice.
\<close>

definition sent :: "(nat \<Rightarrow> call_env) \<Rightarrow> DSPConfig list \<Rightarrow> BidRequest \<Rightarrow> nat \<Rightarrow> indexedResult" where
  "sent envs dsps req i = \<lparr>idx = i, result = callDSP (envs i) (dsps ! i) req\<rparr>"

fun received_of :: "event list \<Rightarrow> indexedResult list" where
  "received_of [] = []"
| "received_of (CtxDone # evs) = received_of evs"
| "received_of (Recv r # evs) = r # received_of evs"

definition schedule_ok :: "(nat \<Rightarrow> call_env) \<Rightarrow> DSPConfig list \<Rightarrow> BidRequest \<Rightarrow> event list \<Rightarrow> bool" where
  "schedule_ok envs dsps req evs =
     (distinct (map idx (received_of evs)) \<and>
      list_all (\<lambda>r. idx r < length dsps \<and> r = sent envs dsps req (idx r)) (received_of evs))"

text \<open>
  A schedule is complete when the loop finds what it waits for: a cancellation, or one
  result per DSP.
\<close>

definition schedule_complete :: "DSPConfig list \<Rightarrow> event list \<Rightarrow> bool" where
  "schedule_complete dsps evs = (CtxDone \<in> set evs \<or> length dsps \<le> length (received_of evs))"

section \<open>float64 addition\<close>

text \<open>
  The values a \<open>float64\<close> accumulator takes: a finite number, an infinity or NaN (the two
  zeros are not told apart; \<open>==\<close> does not tell them apart either). Go's \<open>+\<close> on
  \<open>float64\<close> is the IEEE 754 binary64 addition: the exact sum rounded to the nearest
  value with a 53-bit significand, ties to the even one, and to an infinity from
  \<open>2 ^ 1024\<close> on. \<open>quantum x\<close> is the exponent of the last significand bit at the size
  of \<open>x\<close>, not below \<open>-1074\<close>, that of the subnormal numbers.
\<close>

datatype f64 = Finite real | PosInf | NegInf | NaN

definition round_half_even :: "real \<Rightarrow> int" where
  "round_half_even y =
     (let f = \<lfloor>y\<rfloor>; d = y - of_int f
      in if d < 1 / 2 then f else if d > 1 / 2 then f + 1
         else if even f then f else f + 1)"

definition quantum :: "real \<Rightarrow> int" where
  "quantum x = max (\<lfloor>log 2 \<bar>x\<bar>\<rfloor> - 52) (- 1074)"

definition f64_round :: "real \<Rightarrow> f64" where
  "f64_round x =
     (if x = 0 then Finite 0
      else let q = quantum x;
               r = of_int (round_half_even (x / 2 powi q)) * 2 powi q
           in if r \<ge> 2 ^ 1024 then PosInf
              else if r \<le> - (2 ^ 1024) then NegInf
              else Finite r)"

fun f64_add :: "f64 \<Rightarrow> f64 \<Rightarrow> f64" where
  "f64_add NaN y = NaN"
| "f64_add x NaN = NaN"
| "f64_add PosInf NegInf = NaN"
| "f64_add NegInf PosInf = NaN"
| "f64_add PosInf y = PosInf"
| "f64_add x PosInf = PosInf"
| "f64_add NegInf y = NegInf"
| "f64_add x NegInf = NegInf"
| "f64_add (Finite a) (Finite b) = f64_round (a + b)"

section \<open>Statistics collector (internal/stats)\<close>

record dspStatsInternal =
  requests :: uint64
  bids :: uint64
  wins :: uint64
  noBids :: uint64
  errors :: uint64
  totalLatency :: Duration

text \<open>
  The collector without its mutex: every method holds the lock from entry to return, so
  each is one atomic step on these fields. \<open>dspStats\<close> maps a DSP name to its counters.
\<close>

record Collector =
  totalRequests :: uint64
  totalBids :: uint64
  totalWins :: uint64
  totalNoBids :: uint64
  totalErrors :: uint64
  totalRevenue :: f64
  dspStats :: "string \<rightharpoonup> dspStatsInternal"

definition zero_dspStats :: dspStatsInternal where
  "zero_dspStats = \<lparr>requests = 0, bids = 0, wins = 0, noBids = 0, errors = 0, totalLatency = 0\<rparr>"

definition New_Collector :: Collector where
  "New_Collector = \<lparr>totalRequests = 0, totalBids = 0, totalWins = 0, totalNoBids = 0,
                     totalErrors = 0, totalRevenue = Finite 0, dspStats = Map.empty\<rparr>"

text \<open>
  \<open>getOrCreateDSP\<close> returns a pointer into the map, creating a zero entry when the name is
  new. The model returns the entry with the collector that holds it; \<open>put_DSP\<close> is the
  write through the pointer.
\<close>

definition getOrCreateDSP :: "Collector \<Rightarrow> string \<Rightarrow> dspStatsInternal \<times> Collector" where
  "getOrCreateDSP c name =
     (case dspStats c name of
        Some dsp \<Rightarrow> (dsp, c)
      | None \<Rightarrow> (zero_dspStats, c\<lparr>dspStats := (dspStats c)(name \<mapsto> zero_dspStats)\<rparr>))"

definition put_DSP :: "Collector \<Rightarrow> string \<Rightarrow> dspStatsInternal \<Rightarrow> Collector" where
  "put_DSP c name dsp = c\<lparr>dspStats := (dspStats c)(name \<mapsto> dsp)\<rparr>"

text \<open>The body of the loop over \<open>results\<close>.\<close>

definition record_result :: "Result \<Rightarrow> Collector \<Rightarrow> Collector" where
  "record_result r c =
     (let (dsp, c) = getOrCreateDSP c (DSPName r);
          dsp = dsp\<lparr>requests := requests dsp + 1\<rparr>;
          dsp = dsp\<lparr>totalLatency := totalLatency dsp + Latency r\<rparr>
      in if Error r \<noteq> None
         then (put_DSP c (DSPName r) (dsp\<lparr>errors := errors dsp + 1\<rparr>))
                \<lparr>totalErrors := totalErrors c + 1\<rparr>
         else if Response r \<noteq> None \<and> IsNoBid (the (Response r))
         then put_DSP c (DSPName r) (dsp\<lparr>noBids := noBids dsp + 1\<rparr>)
         else put_DSP c (DSPName r) dsp)"

text \<open>
  \<open>bidsByDSP\<close> is a local map from name to count, here an association list with one
  entry per name; \<open>bump\<close> is \<open>bidsByDSP[name]++\<close>. Go ranges over a map in no fixed order;
  the model takes the order of first occurrence.
\<close>

fun bump :: "string \<Rightarrow> (string \<times> nat) list \<Rightarrow> (string \<times> nat) list" where
  "bump name [] = [(name, 1)]"
| "bump name ((k, n) # kns) = (if k = name then (k, n + 1) # kns else (k, n) # bump name kns)"

definition add_bids :: "string \<times> nat \<Rightarrow> Collector \<Rightarrow> Collector" where
  "add_bids kn c =
     (let (dsp, c) = getOrCreateDSP c (fst kn)
      in put_DSP c (fst kn) (dsp\<lparr>bids := bids dsp + of_nat (snd kn)\<rparr>))"

definition add_win :: "string \<Rightarrow> Collector \<Rightarrow> Collector" where
  "add_win name c =
     (let (dsp, c) = getOrCreateDSP c name
      in put_DSP c name (dsp\<lparr>wins := wins dsp + 1\<rparr>))"

definition RecordAuction :: "Collector \<Rightarrow> Outcome \<Rightarrow> Result list \<Rightarrow> Collector" where
  "RecordAuction c outcome results =
     (let c = c\<lparr>totalRequests := totalRequests c + 1\<rparr>;
          c = c\<lparr>totalBids := totalBids c + of_nat (length (AllBids outcome))\<rparr>;
          c = (if Winner outcome \<noteq> None
               then c\<lparr>totalWins := totalWins c + 1,
                      totalRevenue :=
                        f64_add (totalRevenue c) (Finite (ClearingPrice outcome))\<rparr>
               else c\<lparr>totalNoBids := totalNoBids c + 1\<rparr>);
          c = fold record_result results c;
          bidsByDSP = fold bump (map bwd_DSPName (AllBids outcome)) [];
          c = fold add_bids bidsByDSP c
      in if Winner outcome \<noteq> None \<and> WinningDSP outcome \<noteq> []
         then add_win (WinningDSP outcome) c
         else c)"

record DSPStats =
  Requests :: uint64
  Bids :: uint64
  Wins :: uint64
  NoBids :: uint64
  Errors :: uint64
  AvgLatency :: Duration

record Snapshot =
  TotalRequests :: uint64
  TotalBids :: uint64
  TotalWins :: uint64
  TotalNoBids :: uint64
  TotalErrors :: uint64
  TotalRevenue :: f64
  DSPStats :: "string \<rightharpoonup> DSPStats"

text \<open>
  The average latency is an \<open>int64\<close> division, which truncates towards zero;
  \<open>time.Duration(internal.requests)\<close> reads the counter's bits as signed.
\<close>

definition snapshot_DSP :: "dspStatsInternal \<Rightarrow> DSPStats" where
  "snapshot_DSP internal =
     (let avgLatency =
            (if requests internal > 0
             then word_of_int (sint (totalLatency internal) sdiv sint (requests internal))
             else 0)
      in \<lparr>Requests = requests internal, Bids = bids internal, Wins = wins internal,
          NoBids = noBids internal, Errors = errors internal, AvgLatency = avgLatency\<rparr>)"

definition Snapshot :: "Collector \<Rightarrow> Snapshot" where
  "Snapshot c =
     \<lparr>TotalRequests = totalRequests c, TotalBids = totalBids c, TotalWins = totalWins c,
      TotalNoBids = totalNoBids c, TotalErrors = totalErrors c,
      TotalRevenue = totalRevenue c,
      DSPStats = (\<lambda>name. map_option snapshot_DSP (dspStats c name))\<rparr>"

definition Reset :: "Collector \<Rightarrow> Collector" where
  "Reset c = c\<lparr>totalRequests := 0, totalBids := 0, totalWins := 0, totalNoBids := 0,
               totalErrors := 0, totalRevenue := Finite 0, dspStats := Map.empty\<rparr>"

text \<open>A sequence of \<open>RecordAuction\<close> calls, each with its outcome and its results.\<close>

definition record_all :: "(Outcome \<times> Result list) list \<Rightarrow> Collector \<Rightarrow> Collector" where
  "record_all calls c = fold (\<lambda>call c. RecordAuction c (fst call) (snd call)) calls c"

text \<open>The counters of a DSP as \<open>getOrCreateDSP\<close> sees them: zero when the name is new.\<close>

definition dsp_of :: "Collector \<Rightarrow> string \<Rightarrow> dspStatsInternal" where
  "dsp_of c name = (case dspStats c name of Some dsp \<Rightarrow> dsp | None \<Rightarrow> zero_dspStats)"

section \<open>Engine (internal/engine)\<close>

datatype engine_error = ErrAlreadyRunning | ErrNotRunning | ErrContext error

text \<open>
  The engine's own fields are \<open>rps\<close>, \<open>bidFloor\<close>, \<open>running\<close>, \<open>cancel\<close> and the wait
  group \<open>wg\<close>. A context is named by a number: \<open>cancel = Some k\<close> is the \<open>CancelFunc\<close>
  of context \<open>k\<close>. The record also carries what the runtime holds for the engine: the
  contexts of the loop goroutines that have not returned yet (\<open>loops\<close>), the contexts
  already cancelled (\<open>cancelled\<close>) and the next unused context (\<open>next_ctx\<close>).
\<close>

record Engine =
  rps :: int
  bidFloor :: float64
  running :: bool
  cancel :: "nat option"
  wg :: nat
  loops :: "nat list"
  cancelled :: "nat list"
  next_ctx :: nat

datatype Option = WithRPS int | WithBidFloor float64

fun apply_Option :: "Option \<Rightarrow> Engine \<Rightarrow> Engine" where
  "apply_Option (WithRPS n) e = e\<lparr>rps := n\<rparr>"
| "apply_Option (WithBidFloor fl) e = e\<lparr>bidFloor := fl\<rparr>"

definition New :: "Option list \<Rightarrow> Engine" where
  "New opts =
     fold apply_Option opts
       \<lparr>rps = 100, bidFloor = 0.01, running = False, cancel = None, wg = 0,
        loops = [], cancelled = [], next_ctx = 0\<rparr>"

text \<open>\<open>Start\<close> returns its error (or none) with the engine it leaves.\<close>

definition Start :: "Engine \<Rightarrow> engine_error option \<times> Engine" where
  "Start e =
     (if running e then (Some ErrAlreadyRunning, e)
      else (None, e\<lparr>cancel := Some (next_ctx e), running := True, wg := wg e + 1,
                     loops := loops e @ [next_ctx e], next_ctx := next_ctx e + 1\<rparr>))"

text \<open>
  \<open>Stop\<close> and \<open>Shutdown\<close> begin alike: read \<open>cancel\<close> under the lock and call it when it
  is not nil. A loop goroutine returns (and calls \<open>wg.Done\<close>) at the first \<open>select\<close> after
  its context is cancelled, that is once its current tick is over.
\<close>

definition signal_cancel :: "Engine \<Rightarrow> Engine" where
  "signal_cancel e =
     (case cancel e of
        Some k \<Rightarrow> e\<lparr>cancelled := k # cancelled e\<rparr>
      | None \<Rightarrow> e)"

definition loops_exit :: "Engine \<Rightarrow> Engine" where
  "loops_exit e =
     (let exiting = filter (\<lambda>k. k \<in> set (cancelled e)) (loops e)
      in e\<lparr>loops := filter (\<lambda>k. k \<notin> set (cancelled e)) (loops e),
            wg := wg e - length exiting\<rparr>)"

definition mark_stopped :: "Engine \<Rightarrow> Engine" where
  "mark_stopped e = e\<lparr>running := False, cancel := None\<rparr>"

text \<open>
  \<open>Stop\<close>: \<open>wg.Wait()\<close> returns when the counter reaches zero; with a loop left whose
  context is not cancelled it never does, and \<open>Stop\<close> does not return (\<open>None\<close>).
\<close>

definition Stop :: "Engine \<Rightarrow> Engine option" where
  "Stop e =
     (let e = signal_cancel e;
          e = loops_exit e
      in if wg e = 0 then Some (mark_stopped e) else None)"

text \<open>
  \<open>Shutdown\<close>: the \<open>select\<close> takes the deadline branch when the caller's context is done
  before the loop has returned (\<open>deadline_first = Some err\<close>, with \<open>err\<close> its
  \<open>ctx.Err()\<close>); the engine then stays as the cancellation left it.
\<close>

definition Shutdown :: "error option \<Rightarrow> Engine \<Rightarrow> (engine_error option \<times> Engine) option" where
  "Shutdown deadline_first e =
     (let e = signal_cancel e
      in case deadline_first of
           Some err \<Rightarrow> Some (Some (ErrContext err), e)
         | None \<Rightarrow>
             (let e = loops_exit e
              in if wg e = 0 then Some (None, mark_stopped e) else None))"

definition IsRunning :: "Engine \<Rightarrow> bool" where
  "IsRunning e = running e"

text \<open>
  The lifecycle calls a caller can make one after the other, and the loop goroutine
  returning on its own after a timed-out \<open>Shutdown\<close>.
\<close>

datatype call = CallStart | CallStop | CallShutdown "error option" | LoopReturns

fun do_call :: "call \<Rightarrow> Engine \<Rightarrow> Engine option" where
  "do_call CallStart e = Some (snd (Start e))"
| "do_call CallStop e = Stop e"
| "do_call (CallShutdown d) e = map_option snd (Shutdown d e)"
| "do_call LoopReturns e = Some (loops_exit e)"

fun do_calls :: "call list \<Rightarrow> Engine \<Rightarrow> Engine option" where
  "do_calls [] e = Some e"
| "do_calls (c # cs) e = (case do_call c e of None \<Rightarrow> None | Some e' \<Rightarrow> do_calls cs e')"

text \<open>
  \<open>tick\<close>. Indexing a slice out of range panics; \<open>&&\<close> evaluates \<open>req.Imp[0]\<close> only
  when the length test has passed. The generated request and the dispatcher's results
  come from the engine's collaborators and are parameters.
\<close>

datatype panic = IndexPanic

definition index :: "'a list \<Rightarrow> nat \<Rightarrow> panic + 'a" where
  "index xs i = (if i < length xs then Inr (xs ! i) else Inl IndexPanic)"

definition tick_bidFloor :: "Engine \<Rightarrow> BidRequest \<Rightarrow> panic + float64" where
  "tick_bidFloor e req =
     (let fl = bidFloor e
      in if length (Imp req) > 0
         then (case index (Imp req) 0 of
                 Inl p \<Rightarrow> Inl p
               | Inr imp \<Rightarrow> if BidFloor imp > 0 then Inr (BidFloor imp) else Inr fl)
         else Inr fl)"

definition tick :: "Engine \<Rightarrow> BidRequest \<Rightarrow> (BidRequest \<Rightarrow> Result list) \<Rightarrow> Collector
                    \<Rightarrow> panic + Collector" where
  "tick e req dispatch stats =
     (case tick_bidFloor e req of
        Inl p \<Rightarrow> Inl p
      | Inr fl \<Rightarrow>
          (let results = dispatch req;
               outcome = Run (BidRequest_ID req) fl results
           in Inr (RecordAuction stats outcome results)))"

section \<open>Notions used to state the properties\<close>

text \<open>
  The eligible bids as the specification describes them: the bids of every seat-bid group
  of every result without error and with a decoded response, in order, those at or above
  the floor, each tagged with the name of its result.
\<close>

definition eligible_spec :: "float64 \<Rightarrow> Result list \<Rightarrow> BidWithDSP list" where
  "eligible_spec fl results =
     concat (map (\<lambda>r.
       if Error r = None \<and> Response r \<noteq> None
       then map (\<lambda>b. \<lparr>bwd_Bid = b, bwd_DSPName = DSPName r\<rparr>)
              (filter (\<lambda>b. Price b \<ge> fl)
                 (concat (map SeatBid_Bid (slice_of (SeatBid (the (Response r)))))))
       else []) results)"

definition price_at :: "BidWithDSP list \<Rightarrow> nat \<Rightarrow> float64" where
  "price_at bs j = Price (bwd_Bid (bs ! j))"

definition has_winner :: "Outcome \<times> Result list \<Rightarrow> bool" where
  "has_winner call = (Winner (fst call) \<noteq> None)"

text \<open>The global counters that only the first lines of \<open>RecordAuction\<close> write.\<close>

definition globals :: "Collector \<Rightarrow> uint64 \<times> uint64 \<times> uint64 \<times> uint64 \<times> f64" where
  "globals c = (totalRequests c, totalBids c, totalWins c, totalNoBids c, totalRevenue c)"

text \<open>
  The running sum of \<open>float64\<close> additions from zero, in the order of the list, rounded
  at every addition.
\<close>

definition f64_sum :: "float64 list \<Rightarrow> f64" where
  "f64_sum ps = foldl (\<lambda>acc p. f64_add acc (Finite p)) (Finite 0) ps"

text \<open>The count \<open>bidsByDSP\<close> holds for a name.\<close>

definition count_for :: "string \<Rightarrow> (string \<times> nat) list \<Rightarrow> nat" where
  "count_for d kns = sum_list (map snd (filter (\<lambda>kn. fst kn = d) kns))"

text \<open>The outcome \<open>Dispatch\<close> synthesizes for a slot on cancellation.\<close>

definition cancellation :: "DSPConfig \<Rightarrow> error \<Rightarrow> Result" where
  "cancellation dsp err = \<lparr>DSPName = Name dsp, Response = None, Error = Some err, Latency = 0\<rparr>"

text \<open>The results that arrive before the loop can observe a cancellation.\<close>

definition before_done :: "event list \<Rightarrow> indexedResult list" where
  "before_done evs = received_of (takeWhile (\<lambda>ev. ev \<noteq> CtxDone) evs)"

text \<open>
  What holds of the engine between lifecycle calls: the wait group counts the live loops,
  every live loop runs on the context \<open>cancel\<close> cancels or on one already cancelled, and
  an engine that is not running has no loop and no \<open>cancel\<close>.
\<close>

definition engine_inv :: "Engine \<Rightarrow> bool" where
  "engine_inv e =
     (wg e = length (loops e)
      \<and> list_all (\<lambda>k. cancel e = Some k \<or> k \<in> set (cancelled e)) (loops e)
      \<and> (running e \<or> (loops e = [] \<and> cancel e = None)))"

section \<open>Example values\<close>

text \<open>Composite literals as the tests write them: the fields not given are zero.\<close>

definition mk_Bid :: "string \<Rightarrow> float64 \<Rightarrow> Bid" where
  "mk_Bid i p = \<lparr>Bid_ID = i, ImpID = ''imp-1'', Price = p, AdID = [], NURL = [], AdM = [],
                 ADomain = [], CID = [], CrID = [], Cat = [], W = 0, H = 0\<rparr>"

definition mk_Response :: "Bid list list \<Rightarrow> BidResponse" where
  "mk_Response groups =
     \<lparr>BidResponse_ID = ''req-1'',
      SeatBid = Some (map (\<lambda>bs. \<lparr>SeatBid_Bid = bs, Seat = []\<rparr>) groups),
      BidID = [], Cur = [], NBR = 0\<rparr>"

definition mk_Result :: "string \<Rightarrow> Bid list list \<Rightarrow> Result" where
  "mk_Result name groups =
     \<lparr>DSPName = name, Response = Some (mk_Response groups), Error = None, Latency = 10\<rparr>"

definition mk_Request :: "Imp list \<Rightarrow> BidRequest" where
  "mk_Request imps =
     \<lparr>BidRequest_ID = ''req-1'', Imp = imps, BidRequest_App = None, BidRequest_Site = None,
      BidRequest_Device = None, BidRequest_User = None, At = 1, Tmax = 100,
      BidRequest_Cur = [], Bcat = []\<rparr>"

definition mk_Imp :: "float64 \<Rightarrow> Imp" where
  "mk_Imp fl = \<lparr>Imp_ID = ''imp-1'', Imp_Banner = None, Imp_Video = None, BidFloor = fl,
                Secure = 0, Tagid = []\<rparr>"

text \<open>A network on which every DSP answers with the given status and decoded body.\<close>

definition answering :: "int \<Rightarrow> BidResponse \<Rightarrow> http_env" where
  "answering status resp =
     \<lparr>Marshal = (\<lambda>req. Inr ''{}''),
      DoTimeout = (\<lambda>url body. Inr \<lparr>StatusCode = status, Body = ''{}''\<rparr>),
      Unmarshal = (\<lambda>body. Inr resp)\<rparr>"

definition live_call :: "http_env \<Rightarrow> call_env" where
  "live_call n = \<lparr>ctx_before = None, net = n, elapsed = 5, ctx_after = None\<rparr>"

text \<open>A result with an error, and one with neither an error nor a response.\<close>

definition mk_Failed :: "string \<Rightarrow> error \<Rightarrow> Result" where
  "mk_Failed name err = \<lparr>DSPName = name, Response = None, Error = Some err, Latency = 7\<rparr>"

definition mk_Bare :: "string \<Rightarrow> Result" where
  "mk_Bare name = \<lparr>DSPName = name, Response = None, Error = None, Latency = 10\<rparr>"

definition example_results :: "Result list" where
  "example_results =
     [mk_Result ''dsp1'' [[mk_Bid ''b1'' 2, mk_Bid ''b2'' (1/2)]],
      mk_Result ''dsp2'' [[]],
      mk_Failed ''dsp1'' DeadlineExceeded]"

text \<open>Two recorded auctions, one with a winner and one without.\<close>

definition example_calls :: "(Outcome \<times> Result list) list" where
  "example_calls =
     [(\<lparr>RequestID = ''r1'', Winner = Some (mk_Bid ''b1'' (5/2)), WinningDSP = ''dsp1'',
         ClearingPrice = 5/2,
         AllBids = [\<lparr>bwd_Bid = mk_Bid ''b1'' (5/2), bwd_DSPName = ''dsp1''\<rparr>,
                    \<lparr>bwd_Bid = mk_Bid ''b2'' (3/2), bwd_DSPName = ''dsp2''\<rparr>]\<rparr>, []),
      (\<lparr>RequestID = ''r2'', Winner = None, WinningDSP = [], ClearingPrice = 0,
         AllBids = []\<rparr>, [])]"

text \<open>Two recorded auctions with a winner, at clearing prices \<open>2 ^ 53\<close> and 1.\<close>

definition rounding_calls :: "(Outcome \<times> Result list) list" where
  "rounding_calls =
     [(\<lparr>RequestID = ''r1'', Winner = Some (mk_Bid ''b1'' (2 ^ 53)), WinningDSP = ''dsp1'',
         ClearingPrice = 2 ^ 53,
         AllBids = [\<lparr>bwd_Bid = mk_Bid ''b1'' (2 ^ 53), bwd_DSPName = ''dsp1''\<rparr>]\<rparr>, []),
      (\<lparr>RequestID = ''r2'', Winner = Some (mk_Bid ''b2'' 1), WinningDSP = ''dsp1'',
         ClearingPrice = 1,
         AllBids = [\<lparr>bwd_Bid = mk_Bid ''b2'' 1, bwd_DSPName = ''dsp1''\<rparr>]\<rparr>, [])]"

text \<open>
  Two DSPs, the first configured without a name (the configuration only requires an
  endpoint); both answer at once with one bid; the request is cancelled when the first
  answer has arrived and the second has not.
\<close>

definition unnamed_dsps :: "DSPConfig list" where
  "unnamed_dsps =
     [\<lparr>Name = [], Endpoint = ''http://a/bid'', Enabled = True\<rparr>,
      \<lparr>Name = ''dsp2'', Endpoint = ''http://b/bid'', Enabled = True\<rparr>]"

definition example_envs :: "nat \<Rightarrow> call_env" where
  "example_envs i = live_call (answering 200 (mk_Response [[mk_Bid ''b1'' 2]]))"

definition first_then_cancel :: "event list" where
  "first_then_cancel =
     [Recv (sent example_envs unnamed_dsps (mk_Request [mk_Imp 1]) 0), CtxDone]"

section \<open>Properties of bid responses\<close>

lemma IsNoBid_loop_iff: "IsNoBid_loop sbs \<longleftrightarrow> (\<forall>sb \<in> set sbs. SeatBid_Bid sb = [])"
  by (induction sbs) auto

lemma AllBids_loop_eq: "AllBids_loop sbs acc = acc @ concat (map SeatBid_Bid sbs)"
  by (induction sbs arbitrary: acc) auto

text \<open>
  C9. \<open>IsNoBid\<close> holds exactly when every seat-bid group of the response has zero bids,
  and exactly when \<open>AllBids\<close> returns the empty list. An absent (nil) seat-bid array is a
  no-bid, and so is an array all of whose groups are empty: the two are treated alike.
\<close>

theorem IsNoBid_iff_no_bids:
  "(IsNoBid r \<longleftrightarrow> (\<forall>sb \<in> set (slice_of (SeatBid r)). length (SeatBid_Bid sb) = 0))
   \<and> (IsNoBid r \<longleftrightarrow> BidResponse_AllBids r = [])
   \<and> (IsNoBid (r\<lparr>SeatBid := None\<rparr>) \<longleftrightarrow> True)
   \<and> ((\<forall>sb \<in> set sbs. length (SeatBid_Bid sb) = 0) \<longrightarrow>
        IsNoBid (r\<lparr>SeatBid := Some sbs\<rparr>) = IsNoBid (r\<lparr>SeatBid := None\<rparr>))"
  by (auto simp: IsNoBid_def BidResponse_AllBids_def IsNoBid_loop_iff AllBids_loop_eq slice_of_def
      split: option.splits)

theorem IsNoBid_iff_no_bids_witness:
  "IsNoBid (mk_Response [[], []]) \<and> BidResponse_AllBids (mk_Response [[], []]) = []
   \<and> IsNoBid ((mk_Response [[], []])\<lparr>SeatBid := None\<rparr>)"
proof -
  have h: "\<forall>sb \<in> set (slice_of (SeatBid (mk_Response [[], []]))). length (SeatBid_Bid sb) = 0"
    by (simp add: mk_Response_def slice_of_def)
  note t = IsNoBid_iff_no_bids [of "mk_Response [[], []]" "[]"]
  from t h have a: "IsNoBid (mk_Response [[], []])" by blast
  from t a have b: "BidResponse_AllBids (mk_Response [[], []]) = []" by blast
  from t have c: "IsNoBid ((mk_Response [[], []])\<lparr>SeatBid := None\<rparr>)" by blast
  from a b c show ?thesis by blast
qed

section \<open>Properties of the auction\<close>

lemma collect_bids_eq:
  "collect_bids fl name bs acc =
     acc @ map (\<lambda>b. \<lparr>bwd_Bid = b, bwd_DSPName = name\<rparr>) (filter (\<lambda>b. Price b \<ge> fl) bs)"
  by (induction bs arbitrary: acc) auto

lemma collect_seats_eq:
  "collect_seats fl name sbs acc =
     acc @ map (\<lambda>b. \<lparr>bwd_Bid = b, bwd_DSPName = name\<rparr>)
             (filter (\<lambda>b. Price b \<ge> fl) (concat (map SeatBid_Bid sbs)))"
  by (induction sbs arbitrary: acc) (auto simp: collect_bids_eq)

lemma collect_results_eq: "collect_results fl rs acc = acc @ eligible_spec fl rs"
  by (induction rs arbitrary: acc) (auto simp: collect_seats_eq eligible_spec_def)

lemma AllBids_Run: "AllBids (Run rid fl rs) = eligible_spec fl rs"
  by (simp add: Run_def Let_def collect_results_eq)

text \<open>
  C2. The eligible bids of the outcome of \<open>Run\<close> are, in order, the bids of every seat-bid
  group of each result that has no error and a decoded response, those with a price at or
  above the floor, each tagged with the name of the DSP of its result. When no bid
  survives, the outcome has no winner, an empty winning-DSP name and no eligible bids.
\<close>

theorem Run_eligible_bids:
  "AllBids (Run rid fl rs) = eligible_spec fl rs
   \<and> (eligible_spec fl rs = [] \<longrightarrow>
        Winner (Run rid fl rs) = None \<and> WinningDSP (Run rid fl rs) = []
        \<and> AllBids (Run rid fl rs) = [])"
  by (simp add: Run_def Let_def collect_results_eq)

theorem Run_eligible_bids_witness:
  "AllBids (Run ''req-1'' (1/2)
      [mk_Result ''dsp1'' [[mk_Bid ''b1'' (3/10)]], mk_Result ''dsp2'' [[mk_Bid ''b2'' (4/10)]]]) = []
   \<and> Winner (Run ''req-1'' (1/2)
      [mk_Result ''dsp1'' [[mk_Bid ''b1'' (3/10)]], mk_Result ''dsp2'' [[mk_Bid ''b2'' (4/10)]]]) = None
   \<and> AllBids (Run ''req-1'' (1/2)
      [mk_Result ''dsp1'' [[mk_Bid ''b1'' 2, mk_Bid ''b2'' (1/4)], [mk_Bid ''b3'' 3]]])
     = [\<lparr>bwd_Bid = mk_Bid ''b1'' 2, bwd_DSPName = ''dsp1''\<rparr>,
        \<lparr>bwd_Bid = mk_Bid ''b3'' 3, bwd_DSPName = ''dsp1''\<rparr>]"
  using Run_eligible_bids [of "''req-1''" "1/2"
      "[mk_Result ''dsp1'' [[mk_Bid ''b1'' (3/10)]], mk_Result ''dsp2'' [[mk_Bid ''b2'' (4/10)]]]"]
    Run_eligible_bids [of "''req-1''" "1/2"
      "[mk_Result ''dsp1'' [[mk_Bid ''b1'' 2, mk_Bid ''b2'' (1/4)], [mk_Bid ''b3'' 3]]]"]
  by (simp add: eligible_spec_def mk_Result_def mk_Response_def mk_Bid_def slice_of_def)

lemma eligible_spec_floor: "b \<in> set (eligible_spec fl rs) \<Longrightarrow> Price (bwd_Bid b) \<ge> fl"
  by (auto simp: eligible_spec_def split: if_splits)



lemma highest_loop_inv:
  "h < length bs \<Longrightarrow> h \<le> i \<Longrightarrow> (\<forall>j<i. price_at bs j \<le> price_at bs h)
   \<Longrightarrow> (\<forall>j<h. price_at bs j < price_at bs h)
   \<Longrightarrow> highest_loop bs i h < length bs
       \<and> (\<forall>j<length bs. price_at bs j \<le> price_at bs (highest_loop bs i h))
       \<and> (\<forall>j<highest_loop bs i h. price_at bs j < price_at bs (highest_loop bs i h))"
proof (induction bs i h rule: highest_loop.induct)
  case (1 bs i h)
  show ?case
  proof (cases "i < length bs")
    case False
    with "1.prems" show ?thesis
      by (simp add: highest_loop.simps [of bs i h])
  next
    case True
    show ?thesis
    proof (cases "price_at bs i > price_at bs h")
      case gt: True
      have a: "\<forall>j<Suc i. price_at bs j \<le> price_at bs i"
        using "1.prems"(3) gt by (auto simp: less_Suc_eq intro: order.trans less_imp_le)
      have b: "\<forall>j<i. price_at bs j < price_at bs i"
        using "1.prems"(3) gt by (auto intro: le_less_trans)
      have "highest_loop bs i h = highest_loop bs (Suc i) i"
        using True gt by (simp add: highest_loop.simps [of bs i h] price_at_def)
      moreover note "1.IH"(1) [OF True _ True _ a b]
      ultimately show ?thesis using gt by (simp add: price_at_def)
    next
      case le: False
      have a: "\<forall>j<Suc i. price_at bs j \<le> price_at bs h"
        using "1.prems"(3) le by (auto simp: less_Suc_eq)
      have "highest_loop bs i h = highest_loop bs (Suc i) h"
        using True le by (simp add: highest_loop.simps [of bs i h] price_at_def)
      moreover note "1.IH"(2) [OF True _ "1.prems"(1) _ a "1.prems"(4)]
      ultimately show ?thesis using le "1.prems"(2) by (simp add: price_at_def)
    qed
  qed
qed

lemma BidResponse_AllBids_eq:
  "BidResponse_AllBids resp = concat (map SeatBid_Bid (slice_of (SeatBid resp)))"
  by (simp add: BidResponse_AllBids_def AllBids_loop_eq)

lemma eligible_spec_producer:
  "b \<in> set (eligible_spec fl rs) \<Longrightarrow>
   \<exists>r \<in> set rs. Error r = None \<and> DSPName r = bwd_DSPName b
     \<and> (\<exists>resp. Response r = Some resp \<and> bwd_Bid b \<in> set (BidResponse_AllBids resp))"
  by (fastforce simp: eligible_spec_def BidResponse_AllBids_eq split: if_splits)

text \<open>
  C1. When the outcome of \<open>Run\<close> has a winner, the winner with the winning DSP's name is
  an entry of the eligible bids, which are in iteration order (results in order, then the
  bids of each response in order); no eligible bid has a greater price, and every eligible
  bid before that entry has a strictly smaller one, so on a tie the first maximal bid
  wins. The winner's price is at least the floor, is the maximum of the eligible prices and
  is the clearing price, and the winning DSP's name is the name of a result without error
  whose response holds the winning bid.
\<close>

theorem Run_winner:
  assumes "Winner (Run rid fl rs) = Some w"
  shows "AllBids (Run rid fl rs) = eligible_spec fl rs
    \<and> (\<exists>i<length (AllBids (Run rid fl rs)).
          AllBids (Run rid fl rs) ! i = \<lparr>bwd_Bid = w, bwd_DSPName = WinningDSP (Run rid fl rs)\<rparr>
          \<and> (\<forall>j<length (AllBids (Run rid fl rs)).
                Price (bwd_Bid (AllBids (Run rid fl rs) ! j)) \<le> Price w)
          \<and> (\<forall>j<i. Price (bwd_Bid (AllBids (Run rid fl rs) ! j)) < Price w))
    \<and> \<lparr>bwd_Bid = w, bwd_DSPName = WinningDSP (Run rid fl rs)\<rparr> \<in> set (AllBids (Run rid fl rs))
    \<and> fl \<le> Price w
    \<and> Price w = Max (set (map (\<lambda>b. Price (bwd_Bid b)) (AllBids (Run rid fl rs))))
    \<and> ClearingPrice (Run rid fl rs) = Price w
    \<and> (\<exists>r \<in> set rs. Error r = None \<and> DSPName r = WinningDSP (Run rid fl rs)
          \<and> (\<exists>resp. Response r = Some resp \<and> w \<in> set (BidResponse_AllBids resp)))"
proof -
  define bs where "bs = eligible_spec fl rs"
  define h where "h = highest_loop bs 0 0"
  have all: "AllBids (Run rid fl rs) = bs"
    by (simp add: bs_def AllBids_Run)
  have ne: "bs \<noteq> []"
    using assms by (auto simp: Run_def Let_def collect_results_eq bs_def split: if_splits)
  then have run: "Winner (Run rid fl rs) = Some (bwd_Bid (bs ! h))"
    "WinningDSP (Run rid fl rs) = bwd_DSPName (bs ! h)"
    "ClearingPrice (Run rid fl rs) = Price (bwd_Bid (bs ! h))"
    by (simp_all add: Run_def Let_def collect_results_eq bs_def h_def)
  with assms have w: "w = bwd_Bid (bs ! h)" by simp
  from ne have "0 < length bs" by simp
  from highest_loop_inv [OF this, of 0] have inv: "h < length bs"
    "\<forall>j<length bs. price_at bs j \<le> price_at bs h" "\<forall>j<h. price_at bs j < price_at bs h"
    by (simp_all add: h_def)
  have mem: "bs ! h \<in> set bs" using inv(1) by simp
  have entry: "bs ! h = \<lparr>bwd_Bid = w, bwd_DSPName = WinningDSP (Run rid fl rs)\<rparr>"
    by (simp add: w run(2))
  have floor: "fl \<le> Price w"
    using eligible_spec_floor [of "bs ! h" fl rs] mem by (simp add: w bs_def)
  have "Max (set (map (\<lambda>b. Price (bwd_Bid b)) bs)) = Price w"
  proof (rule Max_eqI)
    show "finite (set (map (\<lambda>b. Price (bwd_Bid b)) bs))" by simp
    show "Price w \<in> set (map (\<lambda>b. Price (bwd_Bid b)) bs)"
      using mem by (auto simp: w)
    fix y assume "y \<in> set (map (\<lambda>b. Price (bwd_Bid b)) bs)"
    then obtain j where "j < length bs" "y = Price (bwd_Bid (bs ! j))"
      by (auto simp: in_set_conv_nth)
    with inv(2) show "y \<le> Price w" by (simp add: price_at_def w)
  qed
  then have max: "Price w = Max (set (map (\<lambda>b. Price (bwd_Bid b)) bs))" by simp
  have prod: "\<exists>r \<in> set rs. Error r = None \<and> DSPName r = WinningDSP (Run rid fl rs)
          \<and> (\<exists>resp. Response r = Some resp \<and> w \<in> set (BidResponse_AllBids resp))"
    using eligible_spec_producer [of "bs ! h" fl rs] mem by (simp add: bs_def [symmetric] w run(2))
  have pw: "Price w = price_at bs h" by (simp add: price_at_def w)
  have le: "\<forall>j<length bs. Price (bwd_Bid (bs ! j)) \<le> Price w"
    using inv(2) by (simp add: pw price_at_def)
  have lt: "\<forall>j<h. Price (bwd_Bid (bs ! j)) < Price w"
    using inv(3) by (simp add: pw price_at_def)
  have idx: "\<exists>i<length bs. bs ! i = \<lparr>bwd_Bid = w, bwd_DSPName = WinningDSP (Run rid fl rs)\<rparr>
          \<and> (\<forall>j<length bs. Price (bwd_Bid (bs ! j)) \<le> Price w)
          \<and> (\<forall>j<i. Price (bwd_Bid (bs ! j)) < Price w)"
    using inv(1) entry le lt by blast
  have mem': "\<lparr>bwd_Bid = w, bwd_DSPName = WinningDSP (Run rid fl rs)\<rparr> \<in> set bs"
    using mem entry by simp
  have eq: "bs = eligible_spec fl rs" by (simp add: bs_def)
  have clearing: "ClearingPrice (Run rid fl rs) = Price w" by (simp add: run(3) w)
  show ?thesis
    unfolding all using eq idx mem' floor max clearing prod by blast
qed

theorem Run_winner_witness:
  "Winner (Run ''req-1'' 1
      [mk_Result ''dsp1'' [[mk_Bid ''b1'' 2, mk_Bid ''b2'' (1/2)]],
       mk_Result ''dsp2'' [[mk_Bid ''b3'' 3], [mk_Bid ''b4'' 3]]]) = Some (mk_Bid ''b3'' 3)
   \<and> WinningDSP (Run ''req-1'' 1
      [mk_Result ''dsp1'' [[mk_Bid ''b1'' 2, mk_Bid ''b2'' (1/2)]],
       mk_Result ''dsp2'' [[mk_Bid ''b3'' 3], [mk_Bid ''b4'' 3]]]) = ''dsp2''
   \<and> ClearingPrice (Run ''req-1'' 1
      [mk_Result ''dsp1'' [[mk_Bid ''b1'' 2, mk_Bid ''b2'' (1/2)]],
       mk_Result ''dsp2'' [[mk_Bid ''b3'' 3], [mk_Bid ''b4'' 3]]]) = Price (mk_Bid ''b3'' 3)"
proof -
  let ?rs = "[mk_Result ''dsp1'' [[mk_Bid ''b1'' 2, mk_Bid ''b2'' (1/2)]],
       mk_Result ''dsp2'' [[mk_Bid ''b3'' 3], [mk_Bid ''b4'' 3]]]"
  have e: "collect_results 1 ?rs [] =
     [\<lparr>bwd_Bid = mk_Bid ''b1'' 2, bwd_DSPName = ''dsp1''\<rparr>,
      \<lparr>bwd_Bid = mk_Bid ''b3'' 3, bwd_DSPName = ''dsp2''\<rparr>,
      \<lparr>bwd_Bid = mk_Bid ''b4'' 3, bwd_DSPName = ''dsp2''\<rparr>]"
    by (simp add: mk_Result_def mk_Response_def mk_Bid_def slice_of_def)
  have h: "highest_loop
     [\<lparr>bwd_Bid = mk_Bid ''b1'' 2, bwd_DSPName = ''dsp1''\<rparr>,
      \<lparr>bwd_Bid = mk_Bid ''b3'' 3, bwd_DSPName = ''dsp2''\<rparr>,
      \<lparr>bwd_Bid = mk_Bid ''b4'' 3, bwd_DSPName = ''dsp2''\<rparr>] 0 0 = 1"
    by (simp add: highest_loop.simps mk_Bid_def)
  have w: "Winner (Run ''req-1'' 1 ?rs) = Some (mk_Bid ''b3'' 3)"
    unfolding Run_def Let_def e h by simp
  have d: "WinningDSP (Run ''req-1'' 1 ?rs) = ''dsp2''"
    unfolding Run_def Let_def e h by simp
  from Run_winner [OF w] have "ClearingPrice (Run ''req-1'' 1 ?rs) = Price (mk_Bid ''b3'' 3)"
    by blast
  with w d show ?thesis by blast
qed

section \<open>Properties of the statistics collector\<close>

text \<open>Each step of \<open>RecordAuction\<close> as one update of the collector.\<close>

lemma record_result_eq:
  "record_result r c =
     c\<lparr>dspStats := (dspStats c)(DSPName r \<mapsto>
          (dsp_of c (DSPName r))
            \<lparr>requests := requests (dsp_of c (DSPName r)) + 1,
             totalLatency := totalLatency (dsp_of c (DSPName r)) + Latency r,
             noBids := noBids (dsp_of c (DSPName r))
                + (if Error r = None \<and> Response r \<noteq> None \<and> IsNoBid (the (Response r))
                   then 1 else 0),
             errors := errors (dsp_of c (DSPName r)) + (if Error r \<noteq> None then 1 else 0)\<rparr>),
       totalErrors := totalErrors c + (if Error r \<noteq> None then 1 else 0)\<rparr>"
  by (cases "dspStats c (DSPName r)")
     (auto simp: record_result_def getOrCreateDSP_def put_DSP_def dsp_of_def Let_def)

lemma add_bids_eq:
  "add_bids kn c =
     c\<lparr>dspStats := (dspStats c)(fst kn \<mapsto>
          (dsp_of c (fst kn))\<lparr>bids := bids (dsp_of c (fst kn)) + of_nat (snd kn)\<rparr>)\<rparr>"
  by (cases "dspStats c (fst kn)")
     (auto simp: add_bids_def getOrCreateDSP_def put_DSP_def dsp_of_def Let_def)

lemma add_win_eq:
  "add_win name c =
     c\<lparr>dspStats := (dspStats c)(name \<mapsto>
          (dsp_of c name)\<lparr>wins := wins (dsp_of c name) + 1\<rparr>)\<rparr>"
  by (cases "dspStats c name")
     (auto simp: add_win_def getOrCreateDSP_def put_DSP_def dsp_of_def Let_def)

lemma dsp_of_upd [simp]:
  "dsp_of (c\<lparr>dspStats := (dspStats c)(k \<mapsto> v)\<rparr>) d = (if d = k then v else dsp_of c d)"
  by (simp add: dsp_of_def)

lemma dsp_of_totalErrors_update [simp]: "dsp_of (c\<lparr>totalErrors := x\<rparr>) d = dsp_of c d"
  by (simp add: dsp_of_def)

text \<open>The loops and the per-DSP steps leave the global counters alone.\<close>

lemma globals_record_result [simp]: "globals (record_result r c) = globals c"
  by (simp add: record_result_eq globals_def)

lemma globals_add_bids [simp]: "globals (add_bids kn c) = globals c"
  by (simp add: add_bids_eq globals_def)

lemma globals_add_win [simp]: "globals (add_win n c) = globals c"
  by (simp add: add_win_eq globals_def)

lemma globals_fold_record_result [simp]: "globals (fold record_result rs c) = globals c"
  by (induction rs arbitrary: c) auto

lemma globals_fold_add_bids [simp]: "globals (fold add_bids kns c) = globals c"
  by (induction kns arbitrary: c) auto

lemma totalErrors_add_bids [simp]: "totalErrors (add_bids kn c) = totalErrors c"
  by (simp add: add_bids_eq)

lemma totalErrors_add_win [simp]: "totalErrors (add_win n c) = totalErrors c"
  by (simp add: add_win_eq)

lemma totalErrors_fold_add_bids [simp]: "totalErrors (fold add_bids kns c) = totalErrors c"
  by (induction kns arbitrary: c) auto

lemma totalErrors_fold_record_result:
  "totalErrors (fold record_result rs c)
     = totalErrors c + of_nat (length (filter (\<lambda>r. Error r \<noteq> None) rs))"
  by (induction rs arbitrary: c) (auto simp: record_result_eq)

lemma globals_RecordAuction:
  "globals (RecordAuction c outcome rs) =
     (totalRequests c + 1,
      totalBids c + of_nat (length (AllBids outcome)),
      totalWins c + (if Winner outcome \<noteq> None then 1 else 0),
      totalNoBids c + (if Winner outcome \<noteq> None then 0 else 1),
      (if Winner outcome \<noteq> None
       then f64_add (totalRevenue c) (Finite (ClearingPrice outcome))
       else totalRevenue c))"
  by (simp add: RecordAuction_def Let_def) (simp add: globals_def)

text \<open>The counters of one DSP across the loops.\<close>

lemma dsp_record_result:
  "requests (dsp_of (record_result r c) d)
     = requests (dsp_of c d) + (if DSPName r = d then 1 else 0)
   \<and> totalLatency (dsp_of (record_result r c) d)
     = totalLatency (dsp_of c d) + (if DSPName r = d then Latency r else 0)
   \<and> errors (dsp_of (record_result r c) d)
     = errors (dsp_of c d) + (if DSPName r = d \<and> Error r \<noteq> None then 1 else 0)
   \<and> noBids (dsp_of (record_result r c) d)
     = noBids (dsp_of c d)
       + (if DSPName r = d \<and> Error r = None \<and> Response r \<noteq> None
             \<and> IsNoBid (the (Response r)) then 1 else 0)
   \<and> bids (dsp_of (record_result r c) d) = bids (dsp_of c d)
   \<and> wins (dsp_of (record_result r c) d) = wins (dsp_of c d)"
  by (simp add: record_result_eq)

lemma dsp_fold_record_result:
  "requests (dsp_of (fold record_result rs c) d)
     = requests (dsp_of c d) + of_nat (length (filter (\<lambda>r. DSPName r = d) rs))
   \<and> totalLatency (dsp_of (fold record_result rs c) d)
     = totalLatency (dsp_of c d) + sum_list (map Latency (filter (\<lambda>r. DSPName r = d) rs))
   \<and> errors (dsp_of (fold record_result rs c) d)
     = errors (dsp_of c d)
       + of_nat (length (filter (\<lambda>r. DSPName r = d \<and> Error r \<noteq> None) rs))
   \<and> noBids (dsp_of (fold record_result rs c) d)
     = noBids (dsp_of c d)
       + of_nat (length (filter (\<lambda>r. DSPName r = d \<and> Error r = None \<and> Response r \<noteq> None
                                      \<and> IsNoBid (the (Response r))) rs))
   \<and> bids (dsp_of (fold record_result rs c) d) = bids (dsp_of c d)
   \<and> wins (dsp_of (fold record_result rs c) d) = wins (dsp_of c d)"
proof (induction rs arbitrary: c)
  case Nil
  show ?case by simp
next
  case (Cons r rs)
  show ?case
    by (simp add: Cons.IH dsp_record_result)
qed



lemma count_for_bump: "count_for d (bump name kns) = count_for d kns + (if d = name then 1 else 0)"
  by (induction kns) (auto simp: count_for_def)

lemma count_for_fold_bump:
  "count_for d (fold bump names kns) = count_for d kns + length (filter (\<lambda>n. n = d) names)"
  by (induction names arbitrary: kns) (auto simp: count_for_bump)

lemma count_for_Nil: "count_for d [] = 0"
  by (simp add: count_for_def)

lemma count_for_Cons: "count_for d (kn # kns) = (if fst kn = d then snd kn else 0) + count_for d kns"
  by (simp add: count_for_def)

lemma dsp_add_bids:
  "bids (dsp_of (add_bids kn c) d)
     = bids (dsp_of c d) + (if fst kn = d then of_nat (snd kn) else 0)
   \<and> requests (dsp_of (add_bids kn c) d) = requests (dsp_of c d)
   \<and> totalLatency (dsp_of (add_bids kn c) d) = totalLatency (dsp_of c d)
   \<and> errors (dsp_of (add_bids kn c) d) = errors (dsp_of c d)
   \<and> noBids (dsp_of (add_bids kn c) d) = noBids (dsp_of c d)
   \<and> wins (dsp_of (add_bids kn c) d) = wins (dsp_of c d)"
  by (simp add: add_bids_eq)

lemma dsp_fold_add_bids:
  "bids (dsp_of (fold add_bids kns c) d) = bids (dsp_of c d) + of_nat (count_for d kns)
   \<and> requests (dsp_of (fold add_bids kns c) d) = requests (dsp_of c d)
   \<and> totalLatency (dsp_of (fold add_bids kns c) d) = totalLatency (dsp_of c d)
   \<and> errors (dsp_of (fold add_bids kns c) d) = errors (dsp_of c d)
   \<and> noBids (dsp_of (fold add_bids kns c) d) = noBids (dsp_of c d)
   \<and> wins (dsp_of (fold add_bids kns c) d) = wins (dsp_of c d)"
proof (induction kns arbitrary: c)
  case Nil
  show ?case by (simp add: count_for_Nil)
next
  case (Cons kn kns)
  show ?case
    by (simp add: Cons.IH dsp_add_bids count_for_Cons)
qed

lemma dsp_add_win:
  "wins (dsp_of (add_win n c) d) = wins (dsp_of c d) + (if d = n then 1 else 0)
   \<and> bids (dsp_of (add_win n c) d) = bids (dsp_of c d)
   \<and> requests (dsp_of (add_win n c) d) = requests (dsp_of c d)
   \<and> totalLatency (dsp_of (add_win n c) d) = totalLatency (dsp_of c d)
   \<and> errors (dsp_of (add_win n c) d) = errors (dsp_of c d)
   \<and> noBids (dsp_of (add_win n c) d) = noBids (dsp_of c d)"
  by (simp add: add_win_eq)

lemma dsp_of_globals_upd [simp]:
  "dsp_of (c\<lparr>totalRequests := a\<rparr>) d = dsp_of c d"
  "dsp_of (c\<lparr>totalBids := a\<rparr>) d = dsp_of c d"
  "dsp_of (c\<lparr>totalWins := a\<rparr>) d = dsp_of c d"
  "dsp_of (c\<lparr>totalNoBids := a\<rparr>) d = dsp_of c d"
  "dsp_of (c\<lparr>totalRevenue := x\<rparr>) d = dsp_of c d"
  by (simp_all add: dsp_of_def)

lemma revenue_fold_Cons:
  "foldl (\<lambda>acc p. f64_add acc (Finite p)) a
     (map (\<lambda>call. ClearingPrice (fst call)) (filter has_winner (call # calls)))
   = foldl (\<lambda>acc p. f64_add acc (Finite p))
       (if has_winner call then f64_add a (Finite (ClearingPrice (fst call))) else a)
       (map (\<lambda>call. ClearingPrice (fst call)) (filter has_winner calls))"
  by simp

lemma globals_record_all:
  "globals (record_all calls c) =
     (totalRequests c + of_nat (length calls),
      totalBids c + of_nat (sum_list (map (\<lambda>call. length (AllBids (fst call))) calls)),
      totalWins c + of_nat (length (filter has_winner calls)),
      totalNoBids c + of_nat (length (filter (\<lambda>call. \<not> has_winner call) calls)),
      foldl (\<lambda>acc p. f64_add acc (Finite p)) (totalRevenue c)
        (map (\<lambda>call. ClearingPrice (fst call)) (filter has_winner calls)))"
proof (induction calls arbitrary: c)
  case Nil
  show ?case by (simp add: record_all_def globals_def)
next
  case (Cons call calls)
  have step: "record_all (call # calls) c = record_all calls (RecordAuction c (fst call) (snd call))"
    by (simp add: record_all_def)
  have g: "globals (RecordAuction c (fst call) (snd call)) =
     (totalRequests c + 1,
      totalBids c + of_nat (length (AllBids (fst call))),
      totalWins c + (if has_winner call then 1 else 0),
      totalNoBids c + (if has_winner call then 0 else 1),
      (if has_winner call then f64_add (totalRevenue c) (Finite (ClearingPrice (fst call)))
       else totalRevenue c))"
    by (simp add: globals_RecordAuction has_winner_def)
  then have f: "totalRequests (RecordAuction c (fst call) (snd call)) = totalRequests c + 1"
    "totalBids (RecordAuction c (fst call) (snd call)) = totalBids c + of_nat (length (AllBids (fst call)))"
    "totalWins (RecordAuction c (fst call) (snd call)) = totalWins c + (if has_winner call then 1 else 0)"
    "totalNoBids (RecordAuction c (fst call) (snd call)) = totalNoBids c + (if has_winner call then 0 else 1)"
    "totalRevenue (RecordAuction c (fst call) (snd call)) =
       (if has_winner call then f64_add (totalRevenue c) (Finite (ClearingPrice (fst call)))
        else totalRevenue c)"
    by (simp_all add: globals_def)
  show ?case
    unfolding step Cons.IH f revenue_fold_Cons by simp
qed

lemma globals_New: "globals New_Collector = (0, 0, 0, 0, Finite 0)"
  by (simp add: globals_def New_Collector_def)

lemma globals_Reset: "globals (Reset c) = (0, 0, 0, 0, Finite 0)"
  by (simp add: globals_def Reset_def)

lemma unat_of_nat_small: "n < 2 ^ 64 \<Longrightarrow> unat (of_nat n :: uint64) = n"
  by (simp add: of_nat_inverse)

text \<open>
  The rounded addition at the inputs used below, and the running sum when no addition
  rounds.
\<close>

lemma floor_log2_between:
  assumes "2 ^ n \<le> x" and "x < 2 ^ Suc n"
  shows "\<lfloor>log 2 x\<rfloor> = int n"
proof -
  have pos: "0 < x" using assms(1) by (rule less_le_trans [rotated]) simp
  have "2 powr real_of_int (int n) \<le> x \<and> x < 2 powr real_of_int (int n + 1)"
    using assms by (simp add: powr_realpow add.commute powr_add)
  with pos show ?thesis by (simp add: floor_log_eq_powr_iff)
qed

lemma round_half_even_int: "round_half_even (of_int k) = k"
  by (simp add: round_half_even_def)

lemma round_half_even_tie: "even k \<Longrightarrow> round_half_even (of_int k + 1 / 2) = k"
proof -
  have "\<lfloor>of_int k + (1 / 2 :: real)\<rfloor> = k" by (simp add: floor_unique)
  then show "even k \<Longrightarrow> round_half_even (of_int k + 1 / 2) = k"
    by (simp add: round_half_even_def Let_def)
qed

lemma f64_round_eval:
  assumes "x \<noteq> 0" and "quantum x = q" and "round_half_even (x / 2 powi q) = m"
    and "\<bar>of_int m * 2 powi q\<bar> < (2 ^ 1024 :: real)"
  shows "f64_round x = Finite (of_int m * 2 powi q)"
proof -
  from assms(4) have "\<not> of_int m * 2 powi q \<ge> (2 ^ 1024 :: real)"
    and "\<not> of_int m * 2 powi q \<le> - (2 ^ 1024 :: real)"
    by linarith+
  then show ?thesis
    using assms(1) by (simp only: f64_round_def assms(2,3) Let_def if_False)
qed

lemma f64_round_2_53: "f64_round (2 ^ 53) = Finite (2 ^ 53)"
proof -
  have nz: "(2 ^ 53 :: real) \<noteq> 0" by simp
  have q: "quantum (2 ^ 53) = 1"
    using floor_log2_between [of 53 "2 ^ 53"] by (simp add: quantum_def)
  have e: "(2 ^ 53 :: real) / 2 powi 1 = of_int (2 ^ 52)" by simp
  have m: "round_half_even ((2 ^ 53 :: real) / 2 powi 1) = 2 ^ 52"
    by (simp only: e round_half_even_int)
  have b: "\<bar>of_int (2 ^ 52) * 2 powi 1\<bar> < (2 ^ 1024 :: real)" by simp
  from f64_round_eval [OF nz q m b] show ?thesis by simp
qed

lemma f64_round_2_53_plus_1: "f64_round (2 ^ 53 + 1) = Finite (2 ^ 53)"
proof -
  have nz: "(2 ^ 53 + 1 :: real) \<noteq> 0" by simp
  have q: "quantum (2 ^ 53 + 1) = 1"
    using floor_log2_between [of 53 "2 ^ 53 + 1"] by (simp add: quantum_def)
  have e: "(2 ^ 53 + 1 :: real) / 2 powi 1 = of_int (2 ^ 52) + 1 / 2" by simp
  have ev: "even (2 ^ 52 :: int)" by simp
  have m: "round_half_even ((2 ^ 53 + 1 :: real) / 2 powi 1) = 2 ^ 52"
    using round_half_even_tie [OF ev] by (simp only: e)
  have b: "\<bar>of_int (2 ^ 52) * 2 powi 1\<bar> < (2 ^ 1024 :: real)" by simp
  from f64_round_eval [OF nz q m b] show ?thesis by simp
qed

lemma f64_round_1: "f64_round 1 = Finite 1"
proof -
  have nz: "(1 :: real) \<noteq> 0" by simp
  have q: "quantum 1 = - 52" by (simp add: quantum_def)
  have e: "(1 :: real) / 2 powi (- 52) = of_int (2 ^ 52)" by (simp add: power_int_minus)
  have m: "round_half_even ((1 :: real) / 2 powi (- 52)) = 2 ^ 52"
    by (simp only: e round_half_even_int)
  have b: "\<bar>of_int (2 ^ 52) * 2 powi (- 52)\<bar> < (2 ^ 1024 :: real)"
    by (simp add: power_int_minus)
  from f64_round_eval [OF nz q m b] show ?thesis by (simp add: power_int_minus)
qed

lemma f64_round_5_2: "f64_round (5 / 2) = Finite (5 / 2)"
proof -
  have nz: "(5 / 2 :: real) \<noteq> 0" by simp
  have q: "quantum (5 / 2) = - 51"
    using floor_log2_between [of 1 "5 / 2"] by (simp add: quantum_def)
  have e: "(5 / 2 :: real) / 2 powi (- 51) = of_int (5 * 2 ^ 50)"
    by (simp add: power_int_minus)
  have m: "round_half_even ((5 / 2 :: real) / 2 powi (- 51)) = 5 * 2 ^ 50"
    by (simp only: e round_half_even_int)
  have b: "\<bar>of_int (5 * 2 ^ 50) * 2 powi (- 51)\<bar> < (2 ^ 1024 :: real)"
    by (simp add: power_int_minus)
  from f64_round_eval [OF nz q m b] show ?thesis by (simp add: power_int_minus)
qed

lemma f64_sum_snoc: "f64_sum (ps @ [p]) = f64_add (f64_sum ps) (Finite p)"
  by (simp add: f64_sum_def)

lemma f64_sum_exact:
  "(\<forall>k<length ps. f64_add (Finite (sum_list (take k ps))) (Finite (ps ! k))
       = Finite (sum_list (take k ps) + ps ! k))
   \<Longrightarrow> f64_sum ps = Finite (sum_list ps)"
proof (induction ps rule: rev_induct)
  case Nil
  show ?case by (simp add: f64_sum_def)
next
  case (snoc p ps)
  have "\<forall>k<length ps. f64_add (Finite (sum_list (take k ps))) (Finite (ps ! k))
       = Finite (sum_list (take k ps) + ps ! k)"
  proof (intro allI impI)
    fix k assume k: "k < length ps"
    with snoc.prems have "f64_add (Finite (sum_list (take k (ps @ [p])))) (Finite ((ps @ [p]) ! k))
       = Finite (sum_list (take k (ps @ [p])) + (ps @ [p]) ! k)" by simp
    with k show "f64_add (Finite (sum_list (take k ps))) (Finite (ps ! k))
       = Finite (sum_list (take k ps) + ps ! k)" by (simp add: nth_append)
  qed
  with snoc.IH have ih: "f64_sum ps = Finite (sum_list ps)" by blast
  have "f64_add (Finite (sum_list ps)) (Finite p) = Finite (sum_list ps + p)"
    using snoc.prems [rule_format, of "length ps"] by simp
  with ih show ?case by (simp add: f64_sum_snoc)
qed

text \<open>
  C4 as stated does not hold: the revenue total is a \<open>float64\<close> accumulated with \<open>+=\<close>,
  rounded at every addition. After a call with clearing price \<open>2 ^ 53\<close> and one with
  clearing price 1, both with a winner, the total is \<open>2 ^ 53\<close>, not their sum.
\<close>

theorem revenue_is_rounded:
  "length rounding_calls = 2
   \<and> has_winner (rounding_calls ! 0) \<and> has_winner (rounding_calls ! 1)
   \<and> ClearingPrice (fst (rounding_calls ! 0)) + ClearingPrice (fst (rounding_calls ! 1))
       = 2 ^ 53 + 1
   \<and> TotalRevenue (Snapshot (record_all rounding_calls New_Collector)) = Finite (2 ^ 53)
   \<and> TotalRevenue (Snapshot (record_all rounding_calls New_Collector)) \<noteq> Finite (2 ^ 53 + 1)"
proof -
  have g: "snd (snd (snd (snd (globals (record_all rounding_calls New_Collector)))))
      = f64_add (f64_add (Finite 0) (Finite (2 ^ 53))) (Finite 1)"
    unfolding globals_record_all
    by (simp add: rounding_calls_def has_winner_def New_Collector_def)
  have "f64_add (f64_add (Finite 0) (Finite (2 ^ 53))) (Finite 1) = Finite (2 ^ 53)"
    by (simp only: f64_add.simps add_0 f64_round_2_53 f64_round_2_53_plus_1)
  with g have r: "TotalRevenue (Snapshot (record_all rounding_calls New_Collector))
      = Finite (2 ^ 53)"
    by (simp add: globals_def Snapshot_def)
  have s: "length rounding_calls = 2
   \<and> has_winner (rounding_calls ! 0) \<and> has_winner (rounding_calls ! 1)
   \<and> ClearingPrice (fst (rounding_calls ! 0)) + ClearingPrice (fst (rounding_calls ! 1))
       = 2 ^ 53 + 1"
    by (simp add: rounding_calls_def has_winner_def)
  from r s show ?thesis by simp
qed

text \<open>
  C4, amended. After any sequence of \<open>RecordAuction\<close> calls on a new or freshly reset
  collector, a snapshot shows: \<open>TotalRequests\<close> is the number of calls; \<open>TotalWins\<close>
  counts the calls whose outcome has a winner and \<open>TotalNoBids\<close> the others, so their sum
  is \<open>TotalRequests\<close>; \<open>TotalBids\<close> is the sum of the lengths of the eligible-bids
  lists; \<open>TotalRevenue\<close> is the \<open>float64\<close> running sum of the clearing prices of the
  calls with a winner, added in call order from zero and rounded at every addition, which
  is their sum when no addition rounds. The counters are \<open>uint64\<close>: the equalities hold
  in 64-bit arithmetic, and as equalities of numbers whenever the counts are below
  \<open>2 ^ 64\<close>.
\<close>

theorem record_all_totals:
  fixes calls :: "(Outcome \<times> Result list) list"
  assumes start: "c0 = New_Collector \<or> c0 = Reset c"
  defines "snap \<equiv> Snapshot (record_all calls c0)"
  defines "prices \<equiv> map (\<lambda>call. ClearingPrice (fst call)) (filter has_winner calls)"
  shows "TotalRequests snap = of_nat (length calls)
    \<and> TotalWins snap = of_nat (length (filter has_winner calls))
    \<and> TotalNoBids snap = of_nat (length (filter (\<lambda>call. \<not> has_winner call) calls))
    \<and> TotalWins snap + TotalNoBids snap = TotalRequests snap
    \<and> TotalRevenue snap = f64_sum prices
    \<and> ((\<forall>k<length prices. f64_add (Finite (sum_list (take k prices))) (Finite (prices ! k))
                             = Finite (sum_list (take k prices) + prices ! k))
         \<longrightarrow> TotalRevenue snap = Finite (sum_list prices))
    \<and> TotalBids snap = of_nat (sum_list (map (\<lambda>call. length (AllBids (fst call))) calls))
    \<and> (length calls < 2 ^ 64 \<longrightarrow>
          unat (TotalRequests snap) = length calls
          \<and> unat (TotalWins snap) = length (filter has_winner calls)
          \<and> unat (TotalNoBids snap) = length (filter (\<lambda>call. \<not> has_winner call) calls)
          \<and> unat (TotalWins snap) + unat (TotalNoBids snap) = unat (TotalRequests snap))
    \<and> (sum_list (map (\<lambda>call. length (AllBids (fst call))) calls) < 2 ^ 64 \<longrightarrow>
          unat (TotalBids snap) = sum_list (map (\<lambda>call. length (AllBids (fst call))) calls))"
proof -
  have g0: "globals c0 = (0, 0, 0, 0, Finite 0)"
    using start by (auto simp: globals_New globals_Reset)
  have g: "globals (record_all calls c0) =
     (of_nat (length calls),
      of_nat (sum_list (map (\<lambda>call. length (AllBids (fst call))) calls)),
      of_nat (length (filter has_winner calls)),
      of_nat (length (filter (\<lambda>call. \<not> has_winner call) calls)),
      f64_sum prices)"
    unfolding globals_record_all using g0 by (simp add: globals_def f64_sum_def prices_def)
  have split: "length (filter has_winner calls) + length (filter (\<lambda>call. \<not> has_winner call) calls)
      = length calls"
    by (rule sum_length_filter_compl)
  have req: "TotalRequests snap = of_nat (length calls)"
    and bid: "TotalBids snap = of_nat (sum_list (map (\<lambda>call. length (AllBids (fst call))) calls))"
    and win: "TotalWins snap = of_nat (length (filter has_winner calls))"
    and nob: "TotalNoBids snap = of_nat (length (filter (\<lambda>call. \<not> has_winner call) calls))"
    and rev: "TotalRevenue snap = f64_sum prices"
    using g by (simp_all add: snap_def Snapshot_def globals_def)
  have exact: "(\<forall>k<length prices. f64_add (Finite (sum_list (take k prices))) (Finite (prices ! k))
                             = Finite (sum_list (take k prices) + prices ! k))
         \<longrightarrow> TotalRevenue snap = Finite (sum_list prices)"
    unfolding rev using f64_sum_exact [of prices] by blast
  have sum: "TotalWins snap + TotalNoBids snap = TotalRequests snap"
    unfolding req win nob using split by (metis of_nat_add)
  have le1: "length (filter has_winner calls) \<le> length calls"
    and le2: "length (filter (\<lambda>call. \<not> has_winner call) calls) \<le> length calls"
    by simp_all
  have small: "length calls < 2 ^ 64 \<longrightarrow>
          unat (TotalRequests snap) = length calls
          \<and> unat (TotalWins snap) = length (filter has_winner calls)
          \<and> unat (TotalNoBids snap) = length (filter (\<lambda>call. \<not> has_winner call) calls)
          \<and> unat (TotalWins snap) + unat (TotalNoBids snap) = unat (TotalRequests snap)"
    unfolding req win nob using le1 le2 split
    by (auto simp: unat_of_nat_small dest: le_less_trans)
  have smallb: "sum_list (map (\<lambda>call. length (AllBids (fst call))) calls) < 2 ^ 64 \<longrightarrow>
          unat (TotalBids snap) = sum_list (map (\<lambda>call. length (AllBids (fst call))) calls)"
    unfolding bid by (simp add: unat_of_nat_small)
  from req win nob sum rev exact bid small smallb show ?thesis by blast
qed

theorem record_all_totals_witness:
  "TotalRequests (Snapshot (record_all example_calls New_Collector)) = 2
   \<and> TotalWins (Snapshot (record_all example_calls New_Collector)) = 1
   \<and> TotalNoBids (Snapshot (record_all example_calls New_Collector)) = 1
   \<and> TotalRevenue (Snapshot (record_all example_calls New_Collector)) = Finite (5 / 2)
   \<and> unat (TotalRequests (Snapshot (record_all example_calls New_Collector))) = 2
   \<and> unat (TotalBids (Snapshot (record_all example_calls New_Collector))) = 2"
proof -
  have h: "New_Collector = New_Collector \<or> New_Collector = Reset New_Collector" by simp
  have p: "map (\<lambda>call. ClearingPrice (fst call)) (filter has_winner example_calls) = [5 / 2]"
    by (simp add: has_winner_def example_calls_def)
  have e: "\<forall>k<length [5 / 2 :: real].
             f64_add (Finite (sum_list (take k [5 / 2]))) (Finite ([5 / 2] ! k))
             = Finite (sum_list (take k [5 / 2]) + [5 / 2] ! k)"
    by (simp add: f64_round_5_2)
  note t = record_all_totals [OF h, of example_calls, unfolded p]
  note x = t [THEN conjunct2, THEN conjunct2, THEN conjunct2, THEN conjunct2, THEN conjunct2,
      THEN conjunct1, THEN mp, OF e]
  from x have r: "TotalRevenue (Snapshot (record_all example_calls New_Collector))
      = Finite (5 / 2)"
    by simp
  from t have c: "TotalRequests (Snapshot (record_all example_calls New_Collector)) = 2
   \<and> TotalWins (Snapshot (record_all example_calls New_Collector)) = 1
   \<and> TotalNoBids (Snapshot (record_all example_calls New_Collector)) = 1
   \<and> unat (TotalRequests (Snapshot (record_all example_calls New_Collector))) = 2
   \<and> unat (TotalBids (Snapshot (record_all example_calls New_Collector))) = 2"
    by (simp add: has_winner_def example_calls_def)
  from r c show ?thesis by blast
qed

text \<open>
  Go ranges over \<open>bidsByDSP\<close> in an order of its own. The names in it are distinct, the
  updates for distinct names commute, and so every order of the entries leaves the same
  collector.
\<close>

lemma keys_bump: "set (map fst (bump name kns)) = insert name (set (map fst kns))"
proof (induction kns)
  case Nil
  show ?case by simp
next
  case (Cons kn kns)
  obtain k n where kn: "kn = (k, n)" by (cases kn)
  show ?case
  proof (cases "k = name")
    case True
    then show ?thesis by (simp add: kn)
  next
    case False
    then show ?thesis using Cons.IH by (simp add: kn insert_commute)
  qed
qed

lemma distinct_bump: "distinct (map fst kns) \<Longrightarrow> distinct (map fst (bump name kns))"
proof (induction kns)
  case Nil
  show ?case by simp
next
  case (Cons kn kns)
  from Cons.prems have "fst kn \<notin> set (map fst kns)" "distinct (map fst kns)" by simp_all
  with Cons.IH keys_bump [of name kns] show ?case
    by (cases kn) auto
qed

lemma distinct_fold_bump:
  "distinct (map fst kns) \<Longrightarrow> distinct (map fst (fold bump names kns))"
  by (induction names arbitrary: kns) (auto simp: distinct_bump)

lemma add_bids_commute:
  "fst a \<noteq> fst b \<Longrightarrow> add_bids a (add_bids b c) = add_bids b (add_bids a c)"
  by (simp add: add_bids_eq fun_upd_twist)

lemma bidsByDSP_order_irrelevant:
  assumes "mset kns = mset (fold bump names [])"
  shows "fold add_bids kns c = fold add_bids (fold bump names []) c"
proof -
  let ?ks = "fold bump names []"
  have d: "distinct (map fst ?ks)" by (rule distinct_fold_bump) simp
  have "fold add_bids ?ks = fold add_bids kns"
  proof (rule fold_multiset_equiv)
    show "mset ?ks = mset kns" using assms by simp
    fix x y assume "x \<in> set ?ks" "y \<in> set ?ks"
    show "add_bids x \<circ> add_bids y = add_bids y \<circ> add_bids x"
    proof (cases "x = y")
      case True
      then show ?thesis by simp
    next
      case False
      with d \<open>x \<in> set ?ks\<close> \<open>y \<in> set ?ks\<close> have "fst x \<noteq> fst y"
        by (meson distinct_map inj_onD)
      then show ?thesis by (auto simp: fun_eq_iff add_bids_commute)
    qed
  qed
  then show ?thesis by simp
qed

lemma RecordAuction_fields:
  "requests (dsp_of (RecordAuction c outcome rs) d)
     = requests (dsp_of c d) + of_nat (length (filter (\<lambda>r. DSPName r = d) rs))
   \<and> totalLatency (dsp_of (RecordAuction c outcome rs) d)
     = totalLatency (dsp_of c d) + sum_list (map Latency (filter (\<lambda>r. DSPName r = d) rs))
   \<and> errors (dsp_of (RecordAuction c outcome rs) d)
     = errors (dsp_of c d)
       + of_nat (length (filter (\<lambda>r. DSPName r = d \<and> Error r \<noteq> None) rs))
   \<and> totalErrors (RecordAuction c outcome rs)
     = totalErrors c + of_nat (length (filter (\<lambda>r. Error r \<noteq> None) rs))
   \<and> noBids (dsp_of (RecordAuction c outcome rs) d)
     = noBids (dsp_of c d)
       + of_nat (length (filter (\<lambda>r. DSPName r = d \<and> Error r = None \<and> Response r \<noteq> None
                                      \<and> IsNoBid (the (Response r))) rs))
   \<and> bids (dsp_of (RecordAuction c outcome rs) d)
     = bids (dsp_of c d)
       + of_nat (length (filter (\<lambda>b. bwd_DSPName b = d) (AllBids outcome)))
   \<and> wins (dsp_of (RecordAuction c outcome rs) d)
     = wins (dsp_of c d)
       + (if Winner outcome \<noteq> None \<and> WinningDSP outcome \<noteq> [] \<and> d = WinningDSP outcome
          then 1 else 0)"
  by (simp add: RecordAuction_def Let_def dsp_add_win dsp_fold_add_bids dsp_fold_record_result
        totalErrors_fold_record_result count_for_fold_bump count_for_Nil filter_map comp_def)

lemma dsp_of_New: "dsp_of New_Collector d = zero_dspStats"
  by (simp add: dsp_of_def New_Collector_def)

lemma totalErrors_New: "totalErrors New_Collector = 0"
  by (simp add: New_Collector_def)

text \<open>
  C7. \<open>RecordAuction\<close> adds to the counters of a DSP: to \<open>requests\<close> the number of
  results carrying its name and to \<open>totalLatency\<close> their latencies; to \<open>errors\<close> the
  number of those with an error, each of which also counts in the global \<open>totalErrors\<close>;
  to \<open>noBids\<close> the number of those without error whose response is a no-bid; and to
  \<open>bids\<close> the number of entries with its name in the outcome's eligible bids, whatever
  the raw responses hold.
\<close>

theorem RecordAuction_per_DSP:
  "requests (dsp_of (RecordAuction c outcome rs) d)
     = requests (dsp_of c d) + of_nat (length (filter (\<lambda>r. DSPName r = d) rs))
   \<and> totalLatency (dsp_of (RecordAuction c outcome rs) d)
     = totalLatency (dsp_of c d) + sum_list (map Latency (filter (\<lambda>r. DSPName r = d) rs))
   \<and> errors (dsp_of (RecordAuction c outcome rs) d)
     = errors (dsp_of c d)
       + of_nat (length (filter (\<lambda>r. DSPName r = d \<and> Error r \<noteq> None) rs))
   \<and> totalErrors (RecordAuction c outcome rs)
     = totalErrors c + of_nat (length (filter (\<lambda>r. Error r \<noteq> None) rs))
   \<and> noBids (dsp_of (RecordAuction c outcome rs) d)
     = noBids (dsp_of c d)
       + of_nat (length (filter (\<lambda>r. DSPName r = d \<and> Error r = None \<and> Response r \<noteq> None
                                      \<and> IsNoBid (the (Response r))) rs))
   \<and> bids (dsp_of (RecordAuction c outcome rs) d)
     = bids (dsp_of c d)
       + of_nat (length (filter (\<lambda>b. bwd_DSPName b = d) (AllBids outcome)))"
  using RecordAuction_fields [of c outcome rs d] by blast

theorem RecordAuction_per_DSP_witness:
  "requests (dsp_of (RecordAuction New_Collector (Run ''req-1'' 1 example_results)
                       example_results) ''dsp1'') = 2
   \<and> totalLatency (dsp_of (RecordAuction New_Collector (Run ''req-1'' 1 example_results)
                       example_results) ''dsp1'') = 17
   \<and> errors (dsp_of (RecordAuction New_Collector (Run ''req-1'' 1 example_results)
                       example_results) ''dsp1'') = 1
   \<and> totalErrors (RecordAuction New_Collector (Run ''req-1'' 1 example_results)
                       example_results) = 1
   \<and> noBids (dsp_of (RecordAuction New_Collector (Run ''req-1'' 1 example_results)
                       example_results) ''dsp2'') = 1
   \<and> bids (dsp_of (RecordAuction New_Collector (Run ''req-1'' 1 example_results)
                       example_results) ''dsp1'') = 1"
proof -
  have a: "AllBids (Run ''req-1'' 1 example_results)
             = [\<lparr>bwd_Bid = mk_Bid ''b1'' 2, bwd_DSPName = ''dsp1''\<rparr>]"
    by (simp add: Run_def Let_def example_results_def mk_Result_def mk_Failed_def
        mk_Response_def mk_Bid_def slice_of_def)
  have n: "IsNoBid (mk_Response [[]])"
    by (simp add: IsNoBid_def mk_Response_def slice_of_def)
  show ?thesis
    using RecordAuction_per_DSP
            [of New_Collector "Run ''req-1'' 1 example_results" example_results "''dsp1''"]
          RecordAuction_per_DSP
            [of New_Collector "Run ''req-1'' 1 example_results" example_results "''dsp2''"]
    unfolding a
    by (simp add: dsp_of_New zero_dspStats_def example_results_def mk_Result_def
        mk_Failed_def n totalErrors_New)
qed

lemma collect_results_append:
  "collect_results fl (xs @ ys) acc = collect_results fl ys (collect_results fl xs acc)"
  by (induction xs arbitrary: acc) auto

text \<open>
  C10. A result with neither an error nor a response gives the auction no eligible bid:
  \<open>Run\<close> returns what it returns without it. In \<open>RecordAuction\<close> it adds one to the
  \<open>requests\<close> of its DSP and its latency to the DSP's \<open>totalLatency\<close>, and nothing to
  \<open>errors\<close>, \<open>noBids\<close>, \<open>bids\<close> or the global \<open>totalErrors\<close>. So after one such
  auction on a new collector the DSP has one request and no bid, no-bid or error: its
  \<open>requests\<close> exceed the sum of the three.
\<close>

theorem neither_error_nor_response:
  assumes "Error r = None" and "Response r = None"
  shows "Run rid fl (xs @ r # ys) = Run rid fl (xs @ ys)
    \<and> AllBids (Run rid fl [r]) = []
    \<and> dsp_of (record_result r c) d =
           (if d = DSPName r
            then (dsp_of c d)\<lparr>requests := requests (dsp_of c d) + 1,
                               totalLatency := totalLatency (dsp_of c d) + Latency r\<rparr>
            else dsp_of c d)
    \<and> (record_result r c)\<lparr>dspStats := dspStats c\<rparr> = c
    \<and> requests (dsp_of (RecordAuction c outcome (r # rs)) d)
        = requests (dsp_of (RecordAuction c outcome rs) d) + (if d = DSPName r then 1 else 0)
    \<and> totalLatency (dsp_of (RecordAuction c outcome (r # rs)) d)
        = totalLatency (dsp_of (RecordAuction c outcome rs) d)
          + (if d = DSPName r then Latency r else 0)
    \<and> errors (dsp_of (RecordAuction c outcome (r # rs)) d)
        = errors (dsp_of (RecordAuction c outcome rs) d)
    \<and> noBids (dsp_of (RecordAuction c outcome (r # rs)) d)
        = noBids (dsp_of (RecordAuction c outcome rs) d)
    \<and> bids (dsp_of (RecordAuction c outcome (r # rs)) d)
        = bids (dsp_of (RecordAuction c outcome rs) d)
    \<and> totalErrors (RecordAuction c outcome (r # rs)) = totalErrors (RecordAuction c outcome rs)
    \<and> unat (requests (dsp_of (RecordAuction New_Collector (Run rid fl [r]) [r]) (DSPName r))) = 1
    \<and> unat (bids (dsp_of (RecordAuction New_Collector (Run rid fl [r]) [r]) (DSPName r)))
        + unat (noBids (dsp_of (RecordAuction New_Collector (Run rid fl [r]) [r]) (DSPName r)))
        + unat (errors (dsp_of (RecordAuction New_Collector (Run rid fl [r]) [r]) (DSPName r)))
       < unat (requests (dsp_of (RecordAuction New_Collector (Run rid fl [r]) [r]) (DSPName r)))"
proof -
  have run: "Run rid fl (xs @ r # ys) = Run rid fl (xs @ ys)"
    using assms by (simp add: Run_def collect_results_append)
  have ab: "AllBids (Run rid fl [r]) = []"
    using assms by (simp add: Run_def)
  have step: "dsp_of (record_result r c) d =
           (if d = DSPName r
            then (dsp_of c d)\<lparr>requests := requests (dsp_of c d) + 1,
                               totalLatency := totalLatency (dsp_of c d) + Latency r\<rparr>
            else dsp_of c d)"
    using assms by (simp add: record_result_eq)
  have glob: "(record_result r c)\<lparr>dspStats := dspStats c\<rparr> = c"
    using assms by (simp add: record_result_eq)
  note f1 = RecordAuction_fields [of c outcome "r # rs" d]
  note f0 = RecordAuction_fields [of c outcome rs d]
  have req: "requests (dsp_of (RecordAuction c outcome (r # rs)) d)
        = requests (dsp_of (RecordAuction c outcome rs) d) + (if d = DSPName r then 1 else 0)"
    using f1 f0 by simp
  have lat: "totalLatency (dsp_of (RecordAuction c outcome (r # rs)) d)
        = totalLatency (dsp_of (RecordAuction c outcome rs) d)
          + (if d = DSPName r then Latency r else 0)"
    using f1 f0 by simp
  have err: "errors (dsp_of (RecordAuction c outcome (r # rs)) d)
        = errors (dsp_of (RecordAuction c outcome rs) d)"
    using f1 f0 assms by simp
  have nob: "noBids (dsp_of (RecordAuction c outcome (r # rs)) d)
        = noBids (dsp_of (RecordAuction c outcome rs) d)"
    using f1 f0 assms by simp
  have bid: "bids (dsp_of (RecordAuction c outcome (r # rs)) d)
        = bids (dsp_of (RecordAuction c outcome rs) d)"
    using f1 f0 by simp
  have tot: "totalErrors (RecordAuction c outcome (r # rs)) = totalErrors (RecordAuction c outcome rs)"
    using f1 f0 assms by simp
  note g = RecordAuction_fields [of New_Collector "Run rid fl [r]" "[r]" "DSPName r"]
  have one: "requests (dsp_of (RecordAuction New_Collector (Run rid fl [r]) [r]) (DSPName r)) = 1"
    and z1: "bids (dsp_of (RecordAuction New_Collector (Run rid fl [r]) [r]) (DSPName r)) = 0"
    and z2: "noBids (dsp_of (RecordAuction New_Collector (Run rid fl [r]) [r]) (DSPName r)) = 0"
    and z3: "errors (dsp_of (RecordAuction New_Collector (Run rid fl [r]) [r]) (DSPName r)) = 0"
    using g assms by (simp_all add: ab dsp_of_New zero_dspStats_def)
  have cnt: "unat (requests (dsp_of (RecordAuction New_Collector (Run rid fl [r]) [r]) (DSPName r))) = 1"
    "unat (bids (dsp_of (RecordAuction New_Collector (Run rid fl [r]) [r]) (DSPName r)))
        + unat (noBids (dsp_of (RecordAuction New_Collector (Run rid fl [r]) [r]) (DSPName r)))
        + unat (errors (dsp_of (RecordAuction New_Collector (Run rid fl [r]) [r]) (DSPName r)))
       < unat (requests (dsp_of (RecordAuction New_Collector (Run rid fl [r]) [r]) (DSPName r)))"
    unfolding one z1 z2 z3 by simp_all
  from run ab step glob req lat err nob bid tot cnt show ?thesis by blast
qed

theorem neither_error_nor_response_witness:
  "Run ''req-1'' 1 [mk_Bare ''dsp1''] = Run ''req-1'' 1 []
   \<and> unat (requests (dsp_of (RecordAuction New_Collector (Run ''req-1'' 1 [mk_Bare ''dsp1''])
              [mk_Bare ''dsp1'']) ''dsp1'')) = 1
   \<and> errors (dsp_of (RecordAuction New_Collector (Run ''req-1'' 1 [mk_Bare ''dsp1''])
              [mk_Bare ''dsp1'']) ''dsp1'')
      = errors (dsp_of (RecordAuction New_Collector (Run ''req-1'' 1 [mk_Bare ''dsp1'']) [])
              ''dsp1'')"
proof -
  have e: "Error (mk_Bare ''dsp1'') = None" and r: "Response (mk_Bare ''dsp1'') = None"
    and n: "DSPName (mk_Bare ''dsp1'') = ''dsp1''"
    by (simp_all add: mk_Bare_def)
  note t = neither_error_nor_response [OF e r, of "''req-1''" 1 "[]" "[]" New_Collector "''dsp1''"
      "Run ''req-1'' 1 [mk_Bare ''dsp1'']" "[]"]
  from t have a: "Run ''req-1'' 1 ([] @ mk_Bare ''dsp1'' # []) = Run ''req-1'' 1 ([] @ [])"
    by blast
  from t have b: "unat (requests (dsp_of (RecordAuction New_Collector
        (Run ''req-1'' 1 [mk_Bare ''dsp1'']) [mk_Bare ''dsp1'']) (DSPName (mk_Bare ''dsp1'')))) = 1"
    by blast
  from t have c: "errors (dsp_of (RecordAuction New_Collector (Run ''req-1'' 1 [mk_Bare ''dsp1''])
              [mk_Bare ''dsp1'']) ''dsp1'')
      = errors (dsp_of (RecordAuction New_Collector (Run ''req-1'' 1 [mk_Bare ''dsp1'']) [])
              ''dsp1'')"
    by blast
  from a b c show ?thesis by (simp add: n)
qed

section \<open>Properties of the HTTP bidder client\<close>

text \<open>
  C5. \<open>Post\<close> returns a value in every case; once the request is serialised, the value
  is: for a transport failure that is a fasthttp timeout, a \<open>TimeoutError\<close>, which
  \<open>IsTimeout\<close> recognises; for any other transport failure, a request error that is not
  a timeout; for status 204, an empty response carrying only the request's id, which is a
  no-bid; for a status of 400 or more, a server error carrying the status; for a 2xx
  status other than 204, a decode error when the body does not decode and the decoded
  response when it does.
\<close>

theorem Post_classification:
  assumes "Marshal env req = Inr body"
  shows "(\<forall>err. DoTimeout env url body = Inl err \<longrightarrow>
            (is_ErrTimeout err \<longrightarrow>
               Post env url req = Inl (TimeoutError err) \<and> IsTimeout (TimeoutError err))
          \<and> (\<not> is_ErrTimeout err \<longrightarrow>
               Post env url req = Inl (ErrDoRequest err) \<and> \<not> IsTimeout (ErrDoRequest err)))
    \<and> (\<forall>resp. DoTimeout env url body = Inr resp \<longrightarrow>
            (StatusCode resp = 204 \<longrightarrow>
               Post env url req = Inr \<lparr>BidResponse_ID = BidRequest_ID req, SeatBid = None,
                                       BidID = [], Cur = [], NBR = 0\<rparr>
               \<and> IsNoBid \<lparr>BidResponse_ID = BidRequest_ID req, SeatBid = None,
                            BidID = [], Cur = [], NBR = 0\<rparr>)
          \<and> (StatusCode resp \<ge> 400 \<longrightarrow>
               Post env url req = Inl (ErrServerStatus (StatusCode resp)))
          \<and> (200 \<le> StatusCode resp \<and> StatusCode resp < 300 \<and> StatusCode resp \<noteq> 204 \<longrightarrow>
               (\<forall>e. Unmarshal env (Body resp) = Inl e \<longrightarrow>
                      Post env url req = Inl (ErrUnmarshal e))
             \<and> (\<forall>decoded. Unmarshal env (Body resp) = Inr decoded \<longrightarrow>
                      Post env url req = Inr decoded)))"
  using assms
  by (simp add: Post_def Let_def StatusNoContent_def IsNoBid_def slice_of_def)

theorem Post_classification_witness:
  "Post (answering 204 (mk_Response [])) ''http://dsp/bid'' (mk_Request [])
     = Inr \<lparr>BidResponse_ID = ''req-1'', SeatBid = None, BidID = [], Cur = [], NBR = 0\<rparr>
   \<and> Post (answering 500 (mk_Response [])) ''http://dsp/bid'' (mk_Request [])
     = Inl (ErrServerStatus 500)
   \<and> Post (answering 200 (mk_Response [[mk_Bid ''b1'' 2]])) ''http://dsp/bid'' (mk_Request [])
     = Inr (mk_Response [[mk_Bid ''b1'' 2]])"
proof -
  have m: "Marshal (answering s r) (mk_Request []) = Inr ''{}''" for s r
    by (simp add: answering_def)
  have d: "DoTimeout (answering s r) ''http://dsp/bid'' ''{}'' = Inr \<lparr>StatusCode = s, Body = ''{}''\<rparr>"
    for s r
    by (simp add: answering_def)
  have u: "Unmarshal (answering s r) ''{}'' = Inr r" for s r
    by (simp add: answering_def)
  have i: "BidRequest_ID (mk_Request []) = ''req-1''" by (simp add: mk_Request_def)
  from Post_classification [OF m, of 204 "mk_Response []" "''http://dsp/bid''"] d [of 204 "mk_Response []"] i
  have a: "Post (answering 204 (mk_Response [])) ''http://dsp/bid'' (mk_Request [])
     = Inr \<lparr>BidResponse_ID = ''req-1'', SeatBid = None, BidID = [], Cur = [], NBR = 0\<rparr>"
    by simp
  from Post_classification [OF m, of 500 "mk_Response []" "''http://dsp/bid''"] d [of 500 "mk_Response []"]
  have b: "Post (answering 500 (mk_Response [])) ''http://dsp/bid'' (mk_Request [])
     = Inl (ErrServerStatus 500)"
    by simp
  from Post_classification [OF m, of 200 "mk_Response [[mk_Bid ''b1'' 2]]" "''http://dsp/bid''"]
    d [of 200 "mk_Response [[mk_Bid ''b1'' 2]]"] u [of 200 "mk_Response [[mk_Bid ''b1'' 2]]"]
  have c: "Post (answering 200 (mk_Response [[mk_Bid ''b1'' 2]])) ''http://dsp/bid'' (mk_Request [])
     = Inr (mk_Response [[mk_Bid ''b1'' 2]])"
    by simp
  from a b c show ?thesis by blast
qed

section \<open>Properties of the dispatcher\<close>

lemma DSPName_callDSP: "DSPName (callDSP env dsp req) = Name dsp"
  by (simp add: callDSP_def Let_def split: option.splits sum.splits)

lemma length_fill_remaining: "length (fill_remaining dsps err rs) = length rs"
  by (induction dsps err rs rule: fill_remaining.induct) simp_all

lemma nth_fill_remaining:
  "length rs = length dsps \<Longrightarrow> i < length dsps \<Longrightarrow>
   fill_remaining dsps err rs ! i =
     (if DSPName (rs ! i) = [] then cancellation (dsps ! i) err else rs ! i)"
proof (induction dsps err rs arbitrary: i rule: fill_remaining.induct)
  case (1 dsp dsps err r results)
  then show ?case by (cases i) (simp_all add: cancellation_def)
qed simp_all

lemma full_set:
  assumes "S \<subseteq> {..<n}" "card S = m" "n \<le> m" "i < (n::nat)"
  shows "i \<in> S"
proof -
  have "card {..<n} \<le> card S" using assms by simp
  with assms(1) have "S = {..<n}" by (simp add: card_seteq)
  with assms(4) show ?thesis by simp
qed

lemma collect_char:
  fixes R :: "nat \<Rightarrow> Result"
  assumes "length results = length dsps"
    and "S \<subseteq> {..<length dsps}" and "card S = received"
    and "\<forall>i<length dsps. results ! i = (if i \<in> S then R i else zero_Result)"
    and "distinct (map idx (received_of evs))"
    and "\<forall>r \<in> set (received_of evs). idx r < length dsps \<and> idx r \<notin> S \<and> result r = R (idx r)"
    and "CtxDone \<in> set evs \<or> length dsps \<le> received + length (received_of evs)"
    and "\<forall>i<length dsps. DSPName (R i) = Name (dsps ! i)"
  shows "\<exists>rs. collect dsps err evs received results = Inr rs \<and> length rs = length dsps \<and>
    (\<forall>i<length dsps. rs ! i =
       (if length dsps \<le> received + length (before_done evs) then R i
        else if (i \<in> S \<or> i \<in> idx ` set (before_done evs)) \<and> Name (dsps ! i) \<noteq> []
             then R i else cancellation (dsps ! i) err))"
  using assms
proof (induction evs arbitrary: received results S)
  case Nil
  then have "length dsps \<le> received" by simp
  with Nil.prems(2,3) have "\<forall>i<length dsps. i \<in> S"
    by (blast intro: full_set)
  with Nil.prems(1,4) \<open>length dsps \<le> received\<close> show ?case
    by (simp add: before_done_def)
next
  case (Cons ev evs)
  show ?case
  proof (cases "received < length dsps")
    case False
    then have ge: "length dsps \<le> received" by simp
    with Cons.prems(2,3) have "\<forall>i<length dsps. i \<in> S"
      by (blast intro: full_set)
    with Cons.prems(1,4) ge show ?thesis
      by (simp add: before_done_def)
  next
    case True
    show ?thesis
    proof (cases ev)
      case CtxDone
      have "\<forall>i<length dsps.
              (if DSPName (results ! i) = [] then cancellation (dsps ! i) err else results ! i)
              = (if i \<in> S \<and> Name (dsps ! i) \<noteq> [] then R i else cancellation (dsps ! i) err)"
        using Cons.prems(4,8) by (auto simp: zero_Result_def)
      with True CtxDone Cons.prems(1) show ?thesis
        by (simp add: before_done_def length_fill_remaining nth_fill_remaining)
    next
      case (Recv r)
      let ?S = "insert (idx r) S"
      let ?results = "results[idx r := result r]"
      from Cons.prems(6) Recv have r: "idx r < length dsps" "idx r \<notin> S" "result r = R (idx r)"
        by simp_all
      have fin: "finite S" using Cons.prems(2) by (rule finite_subset) simp
      have 1: "length ?results = length dsps" using Cons.prems(1) by simp
      have 2: "?S \<subseteq> {..<length dsps}" using Cons.prems(2) r(1) by simp
      have 3: "card ?S = Suc received" using Cons.prems(3) r(2) fin by simp
      have 4: "\<forall>i<length dsps. ?results ! i = (if i \<in> ?S then R i else zero_Result)"
        using Cons.prems(1,4) r by (simp add: nth_list_update)
      have 5: "distinct (map idx (received_of evs))" using Cons.prems(5) Recv by simp
      have 6: "\<forall>r' \<in> set (received_of evs).
                 idx r' < length dsps \<and> idx r' \<notin> ?S \<and> result r' = R (idx r')"
        using Cons.prems(5,6) Recv by (auto simp: image_iff)
      have 7: "CtxDone \<in> set evs \<or> length dsps \<le> Suc received + length (received_of evs)"
        using Cons.prems(7) Recv by simp
      from Cons.IH [OF 1 2 3 4 5 6 7 Cons.prems(8)]
      obtain rs where rs: "collect dsps err evs (Suc received) ?results = Inr rs"
        "length rs = length dsps"
        "\<forall>i<length dsps. rs ! i =
           (if length dsps \<le> Suc received + length (before_done evs) then R i
            else if (i \<in> ?S \<or> i \<in> idx ` set (before_done evs)) \<and> Name (dsps ! i) \<noteq> []
                 then R i else cancellation (dsps ! i) err)"
        by blast
      have c: "collect dsps err (ev # evs) received results = Inr rs"
        using True Recv r(1) Cons.prems(1) rs(1) by simp
      have b: "before_done (ev # evs) = r # before_done evs"
        using Recv by (simp add: before_done_def)
      show ?thesis
        unfolding c b using rs(2,3) by auto
    qed
  qed
qed

text \<open>
  What \<open>Dispatch\<close> returns on a schedule the goroutines can produce: it always returns,
  one result per DSP, each under its DSP's name. When all results arrive before a
  cancellation is observed they are returned as sent. Otherwise the slot of a DSP keeps
  the result received for it if the DSP has a name, and holds the cancellation outcome if
  nothing was received for it, or if the DSP's name is empty.
\<close>

lemma Dispatch_result:
  assumes ok: "schedule_ok envs dsps req evs" and complete: "schedule_complete dsps evs"
  shows "\<exists>rs. Dispatch dsps err evs = Inr rs \<and> length rs = length dsps \<and>
    (\<forall>i<length dsps.
       DSPName (rs ! i) = Name (dsps ! i) \<and>
       rs ! i =
         (if length dsps \<le> length (before_done evs) then callDSP (envs i) (dsps ! i) req
          else if i \<in> idx ` set (before_done evs) \<and> Name (dsps ! i) \<noteq> []
               then callDSP (envs i) (dsps ! i) req
               else cancellation (dsps ! i) err))"
proof (cases "length dsps = 0")
  case True
  then show ?thesis by (simp add: Dispatch_def)
next
  case False
  let ?R = "\<lambda>i. callDSP (envs i) (dsps ! i) req"
  have 1: "length (replicate (length dsps) zero_Result) = length dsps" by simp
  have 2: "{} \<subseteq> {..<length dsps}" by simp
  have 3: "card ({} :: nat set) = 0" by simp
  have 4: "\<forall>i<length dsps. replicate (length dsps) zero_Result ! i
             = (if i \<in> {} then ?R i else zero_Result)" by simp
  have 5: "distinct (map idx (received_of evs))"
    using ok by (simp add: schedule_ok_def)
  have 6: "\<forall>r \<in> set (received_of evs). idx r < length dsps \<and> idx r \<notin> {} \<and> result r = ?R (idx r)"
  proof
    fix r assume "r \<in> set (received_of evs)"
    with ok have "idx r < length dsps" "r = sent envs dsps req (idx r)"
      by (simp_all add: schedule_ok_def list_all_iff)
    then have "result r = ?R (idx r)"
      by (metis indexedResult.select_convs(2) sent_def)
    with \<open>idx r < length dsps\<close> show "idx r < length dsps \<and> idx r \<notin> {} \<and> result r = ?R (idx r)"
      by simp
  qed
  have 7: "CtxDone \<in> set evs \<or> length dsps \<le> 0 + length (received_of evs)"
    using complete by (simp add: schedule_complete_def)
  have 8: "\<forall>i<length dsps. DSPName (?R i) = Name (dsps ! i)"
    by (simp add: DSPName_callDSP)
  from collect_char [OF 1 2 3 4 5 6 7 8, of err]
  obtain rs where rs: "collect dsps err evs 0 (replicate (length dsps) zero_Result) = Inr rs"
    "length rs = length dsps"
    "\<forall>i<length dsps. rs ! i =
       (if length dsps \<le> 0 + length (before_done evs) then ?R i
        else if (i \<in> {} \<or> i \<in> idx ` set (before_done evs)) \<and> Name (dsps ! i) \<noteq> []
             then ?R i else cancellation (dsps ! i) err)"
    by blast
  have names: "\<forall>i<length dsps. DSPName (rs ! i) = Name (dsps ! i)"
    using rs(3) by (simp add: DSPName_callDSP cancellation_def)
  have "Dispatch dsps err evs = Inr rs"
    using False rs(1) by (simp add: Dispatch_def)
  with rs(2,3) names show ?thesis by simp
qed

lemma callDSP_example:
  "callDSP (example_envs i) dsp (mk_Request [mk_Imp 1]) =
     \<lparr>DSPName = Name dsp, Response = Some (mk_Response [[mk_Bid ''b1'' 2]]), Error = None,
      Latency = 5\<rparr>"
  by (simp add: callDSP_def example_envs_def live_call_def answering_def Post_def Let_def
      StatusNoContent_def)

text \<open>
  C3. \<open>Dispatch\<close> over \<open>N\<close> DSPs returns \<open>N\<close> results, the \<open>i\<close>-th under the name of
  DSP \<open>i\<close>, and on cancellation fills the empty slots with the cancellation error and
  returns the filled ones as collected. The loop takes a slot for empty when the name in
  it is empty, so the result already collected from a DSP configured without a name is
  overwritten: here the first DSP's response with a bid has arrived, the cancellation
  follows, and the returned slot holds the cancellation error and no response.
\<close>

theorem Dispatch_cancel_drops_unnamed:
  "schedule_ok example_envs unnamed_dsps (mk_Request [mk_Imp 1]) first_then_cancel
   \<and> schedule_complete unnamed_dsps first_then_cancel
   \<and> before_done first_then_cancel
        = [\<lparr>idx = 0,
            result = \<lparr>DSPName = [], Response = Some (mk_Response [[mk_Bid ''b1'' 2]]),
                      Error = None, Latency = 5\<rparr>\<rparr>]
   \<and> Dispatch unnamed_dsps Canceled first_then_cancel
        = Inr [\<lparr>DSPName = [], Response = None, Error = Some Canceled, Latency = 0\<rparr>,
               \<lparr>DSPName = ''dsp2'', Response = None, Error = Some Canceled, Latency = 0\<rparr>]"
proof -
  have s: "sent example_envs unnamed_dsps (mk_Request [mk_Imp 1]) 0
     = \<lparr>idx = 0,
        result = \<lparr>DSPName = [], Response = Some (mk_Response [[mk_Bid ''b1'' 2]]),
                  Error = None, Latency = 5\<rparr>\<rparr>"
    by (simp add: sent_def callDSP_example unnamed_dsps_def)
  have ok: "schedule_ok example_envs unnamed_dsps (mk_Request [mk_Imp 1]) first_then_cancel"
    unfolding schedule_ok_def first_then_cancel_def
    by (simp add: s) (simp add: unnamed_dsps_def)
  have c: "schedule_complete unnamed_dsps first_then_cancel"
    by (simp add: schedule_complete_def first_then_cancel_def)
  have b: "before_done first_then_cancel
        = [\<lparr>idx = 0,
            result = \<lparr>DSPName = [], Response = Some (mk_Response [[mk_Bid ''b1'' 2]]),
                      Error = None, Latency = 5\<rparr>\<rparr>]"
    by (simp add: before_done_def first_then_cancel_def s)
  have d: "Dispatch unnamed_dsps Canceled first_then_cancel
        = Inr [\<lparr>DSPName = [], Response = None, Error = Some Canceled, Latency = 0\<rparr>,
               \<lparr>DSPName = ''dsp2'', Response = None, Error = Some Canceled, Latency = 0\<rparr>]"
    unfolding first_then_cancel_def s
    by (simp add: Dispatch_def unnamed_dsps_def zero_Result_def)
  from ok c b d show ?thesis by blast
qed

section \<open>Properties of the engine\<close>

lemma inv_apply_Option: "engine_inv (apply_Option opt e) = engine_inv e"
  by (cases opt) (simp_all add: engine_inv_def)

lemma inv_New: "engine_inv (New opts)"
proof -
  have "engine_inv (fold apply_Option opts e) = engine_inv e" for e
    by (induction opts arbitrary: e) (simp_all add: inv_apply_Option)
  then show ?thesis by (simp add: New_def engine_inv_def)
qed

lemma inv_Start: "engine_inv e \<Longrightarrow> engine_inv (snd (Start e))"
  by (cases "running e") (auto simp: Start_def engine_inv_def list_all_iff split: option.splits)

lemma inv_signal: "engine_inv e \<Longrightarrow> engine_inv (signal_cancel e)"
  by (auto simp: signal_cancel_def engine_inv_def list_all_iff split: option.splits)

lemma length_filter_split:
  "length xs - length (filter P xs) = length (filter (\<lambda>x. \<not> P x) xs)"
  using sum_length_filter_compl [of P xs] by simp

lemma inv_loops_exit: "engine_inv e \<Longrightarrow> engine_inv (loops_exit e)"
  by (auto simp: loops_exit_def engine_inv_def list_all_iff Let_def length_filter_split
      split: option.splits)

lemma all_cancelled_after_signal:
  "engine_inv e \<Longrightarrow> list_all (\<lambda>k. k \<in> set (cancelled (signal_cancel e))) (loops (signal_cancel e))"
  by (auto simp: signal_cancel_def engine_inv_def list_all_iff split: option.splits)

lemma loops_exit_all:
  "wg e = length (loops e) \<Longrightarrow> list_all (\<lambda>k. k \<in> set (cancelled e)) (loops e)
   \<Longrightarrow> wg (loops_exit e) = 0 \<and> loops (loops_exit e) = []"
  by (auto simp: loops_exit_def Let_def list_all_iff filter_empty_conv)

lemma wg_signal: "wg (signal_cancel e) = wg e" "loops (signal_cancel e) = loops e"
  by (simp_all add: signal_cancel_def split: option.splits)

lemma Stop_returns:
  assumes "engine_inv e"
  shows "Stop e = Some (mark_stopped (loops_exit (signal_cancel e)))"
proof -
  have "wg (signal_cancel e) = length (loops (signal_cancel e))"
    using assms by (simp add: wg_signal engine_inv_def)
  from loops_exit_all [OF this all_cancelled_after_signal [OF assms]]
  show ?thesis by (simp add: Stop_def Let_def)
qed

lemma inv_mark_stopped:
  "engine_inv e \<Longrightarrow> loops e = [] \<Longrightarrow> engine_inv (mark_stopped e)"
  by (auto simp: mark_stopped_def engine_inv_def)

lemma inv_after_wait:
  assumes "engine_inv e"
  shows "engine_inv (mark_stopped (loops_exit (signal_cancel e)))"
proof -
  have "wg (signal_cancel e) = length (loops (signal_cancel e))"
    using assms by (simp add: wg_signal engine_inv_def)
  from loops_exit_all [OF this all_cancelled_after_signal [OF assms]]
  have "loops (loops_exit (signal_cancel e)) = []" by simp
  with inv_loops_exit [OF inv_signal [OF assms]] show ?thesis
    by (rule inv_mark_stopped)
qed

lemma Shutdown_returns:
  assumes "engine_inv e"
  shows "Shutdown d e = Some (case d of
            Some err \<Rightarrow> (Some (ErrContext err), signal_cancel e)
          | None \<Rightarrow> (None, mark_stopped (loops_exit (signal_cancel e))))"
proof -
  have "wg (signal_cancel e) = length (loops (signal_cancel e))"
    using assms by (simp add: wg_signal engine_inv_def)
  from loops_exit_all [OF this all_cancelled_after_signal [OF assms]]
  show ?thesis by (simp add: Shutdown_def Let_def split: option.splits)
qed

lemma do_call_inv:
  assumes "engine_inv e"
  shows "\<exists>e'. do_call c e = Some e' \<and> engine_inv e'"
proof (cases c)
  case CallStart
  then show ?thesis using inv_Start [OF assms] by simp
next
  case CallStop
  then show ?thesis using Stop_returns [OF assms] inv_after_wait [OF assms] by simp
next
  case (CallShutdown d)
  then show ?thesis
    using Shutdown_returns [OF assms, of d] inv_after_wait [OF assms] inv_signal [OF assms]
    by (cases d) simp_all
next
  case LoopReturns
  then show ?thesis using inv_loops_exit [OF assms] by simp
qed

lemma do_calls_inv:
  "engine_inv e \<Longrightarrow> \<exists>e'. do_calls cs e = Some e' \<and> engine_inv e'"
proof (induction cs arbitrary: e)
  case Nil
  then show ?case by simp
next
  case (Cons c cs)
  from do_call_inv [OF Cons.prems, of c] obtain e1
    where e1: "do_call c e = Some e1" "engine_inv e1" by blast
  from Cons.IH [OF e1(2)] e1(1) show ?case by simp
qed

lemma Stop_idle: "engine_inv e \<Longrightarrow> \<not> running e \<Longrightarrow> Stop e = Some e"
  by (simp add: Stop_def Let_def signal_cancel_def loops_exit_def mark_stopped_def engine_inv_def)

lemma running_signal: "running (signal_cancel e) = running e"
  by (simp add: signal_cancel_def split: option.splits)

text \<open>
  C6. After any sequence of lifecycle calls on a new engine: \<open>Start\<close> on an engine that
  is not running succeeds and \<open>IsRunning\<close> then reports true; \<open>Start\<close> on a running
  engine fails with \<open>ErrAlreadyRunning\<close> and leaves the engine as it was, also once its
  context has been cancelled and the loop has yet to return; \<open>Stop\<close> on an engine that
  is not running changes nothing; and \<open>Stop\<close> always returns, after which \<open>IsRunning\<close>
  reports false.
\<close>

theorem engine_lifecycle:
  "\<exists>e. do_calls calls (New opts) = Some e
     \<and> (\<not> IsRunning e \<longrightarrow> fst (Start e) = None \<and> IsRunning (snd (Start e)))
     \<and> (IsRunning e \<longrightarrow> Start e = (Some ErrAlreadyRunning, e))
     \<and> (IsRunning e \<longrightarrow>
          Start (signal_cancel e) = (Some ErrAlreadyRunning, signal_cancel e))
     \<and> (\<not> IsRunning e \<longrightarrow> Stop e = Some e)
     \<and> (\<exists>e'. Stop e = Some e' \<and> \<not> IsRunning e')"
proof -
  from do_calls_inv [OF inv_New, of calls opts] obtain e
    where e: "do_calls calls (New opts) = Some e" "engine_inv e" by blast
  have "\<not> IsRunning e \<longrightarrow> fst (Start e) = None \<and> IsRunning (snd (Start e))"
    by (simp add: IsRunning_def Start_def)
  moreover have "IsRunning e \<longrightarrow> Start e = (Some ErrAlreadyRunning, e)"
    by (simp add: IsRunning_def Start_def)
  moreover have "IsRunning e \<longrightarrow>
          Start (signal_cancel e) = (Some ErrAlreadyRunning, signal_cancel e)"
    by (simp add: IsRunning_def Start_def running_signal)
  moreover have "\<not> IsRunning e \<longrightarrow> Stop e = Some e"
    using Stop_idle [OF e(2)] by (simp add: IsRunning_def)
  moreover have "\<exists>e'. Stop e = Some e' \<and> \<not> IsRunning e'"
    using Stop_returns [OF e(2)] by (simp add: IsRunning_def mark_stopped_def)
  ultimately show ?thesis using e(1) by blast
qed

theorem engine_lifecycle_witness:
  "\<exists>e. do_calls [CallStart, CallShutdown (Some DeadlineExceeded)] (New []) = Some e
     \<and> IsRunning e \<and> Start e = (Some ErrAlreadyRunning, e)
     \<and> (\<exists>e'. Stop e = Some e' \<and> \<not> IsRunning e')"
proof -
  from engine_lifecycle [of "[CallStart, CallShutdown (Some DeadlineExceeded)]" "[]"]
  obtain e where e: "do_calls [CallStart, CallShutdown (Some DeadlineExceeded)] (New []) = Some e"
    "IsRunning e \<longrightarrow> Start e = (Some ErrAlreadyRunning, e)"
    "\<exists>e'. Stop e = Some e' \<and> \<not> IsRunning e'"
    by blast
  have "IsRunning (the (do_calls [CallStart, CallShutdown (Some DeadlineExceeded)] (New [])))"
    by (simp add: New_def Start_def Shutdown_def signal_cancel_def IsRunning_def)
  with e(1) have "IsRunning e" by simp
  with e show ?thesis by blast
qed

lemma bidFloor_not_overridden:
  "\<forall>x. WithBidFloor x \<notin> set opts \<Longrightarrow> bidFloor (fold apply_Option opts e) = bidFloor e"
proof (induction opts arbitrary: e)
  case Nil
  show ?case by simp
next
  case (Cons opt opts)
  then show ?case by (cases opt) auto
qed

text \<open>
  C8. The floor a tick passes to the auction is the first impression's floor when the
  request has an impression and that floor is positive, and the engine's floor otherwise;
  a request without impressions does not panic. The engine's floor is 0.01 unless a
  \<open>WithBidFloor\<close> option overrides it.
\<close>

theorem tick_bid_floor:
  "tick_bidFloor e req =
     Inr (if Imp req \<noteq> [] \<and> BidFloor (hd (Imp req)) > 0
          then BidFloor (hd (Imp req)) else bidFloor e)
   \<and> tick e req dispatch stats =
     Inr (RecordAuction stats
            (Run (BidRequest_ID req)
               (if Imp req \<noteq> [] \<and> BidFloor (hd (Imp req)) > 0
                then BidFloor (hd (Imp req)) else bidFloor e)
               (dispatch req))
            (dispatch req))
   \<and> (Imp req = [] \<longrightarrow> tick_bidFloor e req = Inr (bidFloor e))
   \<and> ((\<forall>x. WithBidFloor x \<notin> set opts) \<longrightarrow> bidFloor (New opts) = 1 / 100)
   \<and> bidFloor (New (opts @ [WithBidFloor x])) = x"
proof -
  have f: "tick_bidFloor e req =
     Inr (if Imp req \<noteq> [] \<and> BidFloor (hd (Imp req)) > 0
          then BidFloor (hd (Imp req)) else bidFloor e)"
    by (cases "Imp req") (simp_all add: tick_bidFloor_def index_def)
  have t: "tick e req dispatch stats =
     Inr (RecordAuction stats
            (Run (BidRequest_ID req)
               (if Imp req \<noteq> [] \<and> BidFloor (hd (Imp req)) > 0
                then BidFloor (hd (Imp req)) else bidFloor e)
               (dispatch req))
            (dispatch req))"
    unfolding tick_def f by (simp add: Let_def)
  have z: "Imp req = [] \<longrightarrow> tick_bidFloor e req = Inr (bidFloor e)"
    by (simp add: f)
  have d: "(\<forall>x. WithBidFloor x \<notin> set opts) \<longrightarrow> bidFloor (New opts) = 1 / 100"
    by (simp add: New_def bidFloor_not_overridden)
  have o: "bidFloor (New (opts @ [WithBidFloor x])) = x"
    by (simp add: New_def)
  from f t z d o show ?thesis by blast
qed

theorem tick_bid_floor_witness:
  "tick_bidFloor (New []) (mk_Request []) = Inr (1 / 100)
   \<and> tick_bidFloor (New [WithRPS 10]) (mk_Request [mk_Imp 0]) = Inr (1 / 100)
   \<and> tick_bidFloor (New []) (mk_Request [mk_Imp (1 / 2)]) = Inr (1 / 2)"
proof -
  have i: "Imp (mk_Request []) = []" by (simp add: mk_Request_def)
  have n: "\<forall>x. WithBidFloor x \<notin> set []" by simp
  have n': "\<forall>x. WithBidFloor x \<notin> set [WithRPS 10]" by simp
  from tick_bid_floor [of "New []" "mk_Request []" "\<lambda>req. []" New_Collector "[]" 0] i n
  have a: "tick_bidFloor (New []) (mk_Request []) = Inr (1 / 100)" by simp
  from tick_bid_floor [of "New [WithRPS 10]" "mk_Request [mk_Imp 0]" "\<lambda>req. []" New_Collector
      "[WithRPS 10]" 0] n'
  have b: "tick_bidFloor (New [WithRPS 10]) (mk_Request [mk_Imp 0]) = Inr (1 / 100)"
    by (simp add: mk_Request_def mk_Imp_def)
  from tick_bid_floor [of "New []" "mk_Request [mk_Imp (1 / 2)]" "\<lambda>req. []" New_Collector "[]" 0]
  have c: "tick_bidFloor (New []) (mk_Request [mk_Imp (1 / 2)]) = Inr (1 / 2)"
    by (simp add: mk_Request_def mk_Imp_def)
  from a b c show ?thesis by blast
qed

end
